theory Spec2Isabelle
  imports Main "HOL-Library.Word" "HOL-Library.Multiset"
begin

chapter \<open>An encrypted local note store: the model\<close>

text \<open>
  A shallow embedding of the persistence engine of the application: \<^verbatim>\<open>CryptoService\<close>,
  \<^verbatim>\<open>StorageService\<close>, the models \<^verbatim>\<open>Note\<close> and \<^verbatim>\<open>Event\<close>, \<^verbatim>\<open>authController\<close> and the backup
  import of \<^verbatim>\<open>settingsController\<close>. Every definition carries the name of the JavaScript
  function it stands for. What the browser provides (Web Crypto, \<^verbatim>\<open>JSON\<close>, the SQL engine)
  is not code of the application: it enters the model as the fields of a record
  \<open>platform\<close>, and the theorems say which properties of it they rely on.
\<close>

section \<open>Errors\<close>

text \<open>
  The exceptions the code can meet: \<^verbatim>\<open>Error("Database not initialized.")\<close>, an error of
  the SQL engine, a rejected IndexedDB request, \<^verbatim>\<open>SyntaxError\<close> of \<^verbatim>\<open>JSON.parse\<close>,
  \<^verbatim>\<open>TypeError\<close> of a property read on \<^verbatim>\<open>undefined\<close>, and the \<^verbatim>\<open>Error\<close> that
  \<^verbatim>\<open>importData\<close> throws when the backup does not decrypt.
\<close>

datatype error = NotInitialized | SqlError | IOError | SyntaxError | TypeError | DecryptFailed

section \<open>Bytes, strings and their encodings\<close>

text \<open>
  A \<^verbatim>\<open>Uint8Array\<close> is a list of bytes. A JavaScript string is a list of 16-bit code units,
  so every value of \<open>js_string\<close> is a string the code can be given, also one with an
  unpaired surrogate. \<open>js\<close> writes an ASCII literal of the source.
\<close>

type_synonym byte = "8 word"
type_synonym js_string = "16 word list"

definition js :: "string \<Rightarrow> js_string" where
  "js cs = map (\<lambda>c. of_nat (of_char c)) cs"

text \<open>\<^verbatim>\<open>String(x)\<close> for a value that is a string or \<^verbatim>\<open>null\<close>.\<close>

definition or_null :: "js_string option \<Rightarrow> js_string" where
  "or_null v = (case v of None \<Rightarrow> js ''null'' | Some s \<Rightarrow> s)"

text \<open>A string or \<^verbatim>\<open>null\<close> in a condition: \<^verbatim>\<open>null\<close> and the empty string are falsy.\<close>

definition falsy :: "js_string option \<Rightarrow> bool" where
  "falsy v = (v = None \<or> v = Some [])"

subsection \<open>Base64: \<^verbatim>\<open>btoa\<close> and \<^verbatim>\<open>atob\<close>\<close>

text \<open>
  \<^verbatim>\<open>btoa(String.fromCharCode.apply(null, combined))\<close>: the string built from the bytes
  has one code unit below 256 for each byte, so \<^verbatim>\<open>btoa\<close> cannot throw on it; \<open>btoa\<close>
  here takes the bytes. (The limit of an engine on the number of arguments of \<^verbatim>\<open>apply\<close>
  is not modelled.) \<open>b64_char\<close> is the alphabet \<^verbatim>\<open>A-Z a-z 0-9 + /\<close>, 61 is \<^verbatim>\<open>=\<close>.

  \<^verbatim>\<open>atob\<close> is the forgiving-base64 decode of the HTML standard: ASCII whitespace is
  removed, then one or two \<^verbatim>\<open>=\<close> at the end of a string whose length is a multiple of
  four; a length of 1 modulo 4 and any character outside the alphabet fail (the call throws,
  here \<open>None\<close>); the bits left over at the end are dropped.
  \<^verbatim>\<open>new Uint8Array(atob(x).split('').map(c => c.charCodeAt(0)))\<close> turns the result into
  bytes; \<open>atob\<close> here gives the bytes.
\<close>

definition b64_char :: "nat \<Rightarrow> 16 word" where
  "b64_char i = of_nat (if i < 26 then 65 + i else if i < 52 then 71 + i
     else if i < 62 then i - 4 else if i = 62 then 43 else 47)"

definition b64_index :: "16 word \<Rightarrow> nat option" where
  "b64_index c = (let n = unat c in
     if 65 \<le> n \<and> n \<le> 90 then Some (n - 65)
     else if 97 \<le> n \<and> n \<le> 122 then Some (n - 71)
     else if 48 \<le> n \<and> n \<le> 57 then Some (n + 4)
     else if n = 43 then Some 62
     else if n = 47 then Some 63
     else None)"

fun b64_sextets :: "nat list \<Rightarrow> nat list" where
  "b64_sextets (a # b # c # rest) =
     a div 4 # ((a mod 4) * 16 + b div 16) # ((b mod 16) * 4 + c div 64) # c mod 64
       # b64_sextets rest"
| "b64_sextets [a, b] = [a div 4, (a mod 4) * 16 + b div 16, (b mod 16) * 4]"
| "b64_sextets [a] = [a div 4, (a mod 4) * 16]"
| "b64_sextets [] = []"

definition btoa :: "byte list \<Rightarrow> js_string" where
  "btoa bs = map b64_char (b64_sextets (map unat bs))
     @ replicate ((3 - length bs mod 3) mod 3) 61"

definition ascii_whitespace :: "16 word \<Rightarrow> bool" where
  "ascii_whitespace c = (c = 9 \<or> c = 10 \<or> c = 12 \<or> c = 13 \<or> c = 32)"

definition strip_padding :: "js_string \<Rightarrow> js_string" where
  "strip_padding cs =
     (if length cs mod 4 = 0 \<and> cs \<noteq> [] \<and> last cs = 61 then
        (if butlast cs \<noteq> [] \<and> last (butlast cs) = 61 then butlast (butlast cs) else butlast cs)
      else cs)"

fun b64_decode :: "nat list \<Rightarrow> nat list" where
  "b64_decode (a # b # c # d # rest) =
     (a * 4 + b div 16) # ((b mod 16) * 16 + c div 4) # ((c mod 4) * 64 + d) # b64_decode rest"
| "b64_decode [a, b, c] = [a * 4 + b div 16, (b mod 16) * 16 + c div 4]"
| "b64_decode [a, b] = [a * 4 + b div 16]"
| "b64_decode [a] = []"
| "b64_decode [] = []"

definition atob :: "js_string \<Rightarrow> byte list option" where
  "atob data = (let cs = strip_padding (filter (\<lambda>c. \<not> ascii_whitespace c) data) in
     if length cs mod 4 = 1 then None
     else case those (map b64_index cs) of
       None \<Rightarrow> None
     | Some ss \<Rightarrow> Some (map of_nat (b64_decode ss)))"

subsection \<open>UTF-8: \<^verbatim>\<open>TextEncoder\<close> and \<^verbatim>\<open>TextDecoder\<close>\<close>

text \<open>
  \<^verbatim>\<open>new TextEncoder().encode(s)\<close> first turns the code units into scalar values, an
  unpaired surrogate becoming U+FFFD (\<open>utf16_decode\<close>), then writes each in UTF-8.

  \<^verbatim>\<open>new TextDecoder().decode(bytes)\<close> is the UTF-8 decoder of the Encoding standard with
  the defaults of the constructor: not fatal, so a malformed sequence gives U+FFFD and the
  offending byte is read again as a first byte; and \<^verbatim>\<open>ignoreBOM\<close> false, so a leading
  U+FEFF is removed from the output. \<open>utf8_decode\<close> carries the decoder's state: bytes
  needed, bytes seen, code point, lower and upper boundary.
\<close>

definition lead_surrogate :: "nat \<Rightarrow> bool" where
  "lead_surrogate u = (0xD800 \<le> u \<and> u \<le> 0xDBFF)"

definition trail_surrogate :: "nat \<Rightarrow> bool" where
  "trail_surrogate u = (0xDC00 \<le> u \<and> u \<le> 0xDFFF)"

fun utf16_decode :: "nat list \<Rightarrow> nat list" where
  "utf16_decode [] = []"
| "utf16_decode [u] = [if lead_surrogate u \<or> trail_surrogate u then 0xFFFD else u]"
| "utf16_decode (u # v # us) =
     (if lead_surrogate u then
        (if trail_surrogate v
         then (0x10000 + (u - 0xD800) * 0x400 + (v - 0xDC00)) # utf16_decode us
         else 0xFFFD # utf16_decode (v # us))
      else if trail_surrogate u then 0xFFFD # utf16_decode (v # us)
      else u # utf16_decode (v # us))"

definition utf8_encode :: "nat \<Rightarrow> nat list" where
  "utf8_encode cp =
     (if cp < 0x80 then [cp]
      else if cp < 0x800 then [0xC0 + cp div 64, 0x80 + cp mod 64]
      else if cp < 0x10000 then [0xE0 + cp div 4096, 0x80 + (cp div 64) mod 64, 0x80 + cp mod 64]
      else [0xF0 + cp div 262144, 0x80 + (cp div 4096) mod 64, 0x80 + (cp div 64) mod 64,
            0x80 + cp mod 64])"

definition TextEncoder_encode :: "js_string \<Rightarrow> byte list" where
  "TextEncoder_encode s = map of_nat (concat (map utf8_encode (utf16_decode (map unat s))))"

datatype utf8_lead = Single nat | Multi nat nat nat nat | Invalid

definition utf8_first :: "nat \<Rightarrow> utf8_lead" where
  "utf8_first b =
     (if b \<le> 0x7F then Single b
      else if 0xC2 \<le> b \<and> b \<le> 0xDF then Multi 1 (b mod 32) 0x80 0xBF
      else if 0xE0 \<le> b \<and> b \<le> 0xEF then
        Multi 2 (b mod 16) (if b = 0xE0 then 0xA0 else 0x80) (if b = 0xED then 0x9F else 0xBF)
      else if 0xF0 \<le> b \<and> b \<le> 0xF4 then
        Multi 3 (b mod 8) (if b = 0xF0 then 0x90 else 0x80) (if b = 0xF4 then 0x8F else 0xBF)
      else Invalid)"

fun utf8_decode :: "nat \<Rightarrow> nat \<Rightarrow> nat \<Rightarrow> nat \<Rightarrow> nat \<Rightarrow> nat list \<Rightarrow> nat list" where
  "utf8_decode needed seen cp lo hi [] = (if needed \<noteq> 0 then [0xFFFD] else [])"
| "utf8_decode needed seen cp lo hi (b # bs) =
     (if needed \<noteq> 0 \<and> lo \<le> b \<and> b \<le> hi then
        (if Suc seen = needed then (cp * 64 + b mod 64) # utf8_decode 0 0 0 0x80 0xBF bs
         else utf8_decode needed (Suc seen) (cp * 64 + b mod 64) 0x80 0xBF bs)
      else
        (if needed \<noteq> 0 then [0xFFFD] else []) @
        (case utf8_first b of
           Single c \<Rightarrow> c # utf8_decode 0 0 0 0x80 0xBF bs
         | Multi n c l h \<Rightarrow> utf8_decode n 0 c l h bs
         | Invalid \<Rightarrow> 0xFFFD # utf8_decode 0 0 0 0x80 0xBF bs))"

definition utf16_encode :: "nat \<Rightarrow> nat list" where
  "utf16_encode cp =
     (if cp < 0x10000 then [cp]
      else [0xD800 + (cp - 0x10000) div 0x400, 0xDC00 + (cp - 0x10000) mod 0x400])"

definition strip_bom :: "nat list \<Rightarrow> nat list" where
  "strip_bom cps = (case cps of [] \<Rightarrow> [] | c # rest \<Rightarrow> if c = 0xFEFF then rest else cps)"

definition TextDecoder_decode :: "byte list \<Rightarrow> js_string" where
  "TextDecoder_decode bs =
     map of_nat (concat (map utf16_encode (strip_bom (utf8_decode 0 0 0 0x80 0xBF (map unat bs)))))"

text \<open>A Unicode scalar value: a code point that is not a surrogate.\<close>

definition scalar :: "nat \<Rightarrow> bool" where
  "scalar c = (c < 0x110000 \<and> \<not> (0xD800 \<le> c \<and> c \<le> 0xDFFF))"

section \<open>The data of the application\<close>

text \<open>JavaScript values as \<^verbatim>\<open>JSON.parse\<close> gives them, and \<^verbatim>\<open>undefined\<close>.\<close>

datatype jsval = JUndefined | JNull | JBool bool | JNum int | JStr js_string
  | JArr "jsval list" | JObj "(js_string \<times> jsval) list"

text \<open>
  The rows of the tables, as \<^verbatim>\<open>createSchema\<close> declares them: \<^verbatim>\<open>TEXT\<close> is a string,
  \<^verbatim>\<open>INTEGER\<close> an integer, and a column without \<^verbatim>\<open>NOT NULL\<close> may hold \<^verbatim>\<open>NULL\<close>.
\<close>

record note_row =
  n_id :: js_string
  n_title_encrypted :: "js_string option"
  n_content_encrypted :: "js_string option"
  n_created_at :: "int option"
  n_updated_at :: "int option"
  n_tags_encrypted :: "js_string option"
  n_is_favorite :: "int option"

record event_row =
  e_id :: js_string
  e_title_encrypted :: js_string
  e_description_encrypted :: "js_string option"
  e_start_time :: int
  e_end_time :: "int option"
  e_is_all_day :: "int option"
  e_calendar_type :: js_string
  e_rrule_encrypted :: "js_string option"

record database =
  tbl_notes :: "note_row list"
  tbl_events :: "event_row list"
  tbl_settings :: "(js_string \<times> js_string) list"

section \<open>The platform\<close>

text \<open>
  What the code calls and the application does not contain. \<open>'k\<close> is the type of a
  \<^verbatim>\<open>CryptoKey\<close>.

  \<^item> \<open>pbkdf2 password salt iterations\<close>: \<^verbatim>\<open>importKey\<close> and \<^verbatim>\<open>deriveKey\<close> with PBKDF2 and
    SHA-256, giving an AES-GCM key;
  \<^item> \<open>aes_gcm_encrypt key iv plaintext\<close> and \<open>aes_gcm_decrypt key iv data\<close>:
    \<^verbatim>\<open>crypto.subtle.encrypt\<close> and \<^verbatim>\<open>decrypt\<close>; \<open>None\<close> when \<^verbatim>\<open>decrypt\<close> rejects;
  \<^item> \<open>json_parse\<close>: \<^verbatim>\<open>JSON.parse\<close> of a string, \<open>None\<close> when it throws;
  \<^item> \<open>bytes_to_json\<close>: \<^verbatim>\<open>JSON.stringify(Array.from(bytes))\<close>;
  \<^item> \<open>bytes_of_json\<close>: \<^verbatim>\<open>new Uint8Array(JSON.parse(item))\<close> for an item of
    \<^verbatim>\<open>localStorage\<close> (a string or \<^verbatim>\<open>null\<close>), \<open>None\<close> when it throws;
  \<^item> \<open>to_string\<close>: the string that \<^verbatim>\<open>localStorage.setItem\<close> stores for a value;
  \<^item> \<open>object_values\<close>: \<^verbatim>\<open>Object.values\<close>, \<open>None\<close> when it throws;
  \<^item> \<open>insert_note\<close>, \<open>insert_event\<close>: what \<^verbatim>\<open>INSERT INTO notes VALUES (?, ...)\<close> and
    \<^verbatim>\<open>INSERT INTO events VALUES (?, ...)\<close> make of their table with the bound values,
    \<open>None\<close> when the engine throws.
\<close>

record 'k platform =
  pbkdf2 :: "byte list \<Rightarrow> byte list \<Rightarrow> nat \<Rightarrow> 'k"
  aes_gcm_encrypt :: "'k \<Rightarrow> byte list \<Rightarrow> byte list \<Rightarrow> byte list"
  aes_gcm_decrypt :: "'k \<Rightarrow> byte list \<Rightarrow> byte list \<Rightarrow> byte list option"
  json_parse :: "js_string \<Rightarrow> jsval option"
  bytes_to_json :: "byte list \<Rightarrow> js_string"
  bytes_of_json :: "js_string option \<Rightarrow> byte list option"
  to_string :: "jsval \<Rightarrow> js_string"
  object_values :: "jsval \<Rightarrow> jsval list option"
  insert_note :: "jsval list \<Rightarrow> note_row list \<Rightarrow> note_row list option"
  insert_event :: "jsval list \<Rightarrow> event_row list \<Rightarrow> event_row list option"

text \<open>
  What the theorems ask of the platform. Decryption undoes encryption under the same key
  and nonce; a key other than the one used is rejected (the authentication tag does not
  verify) and the key derivation gives different keys for different passwords (both hold
  for the real primitives up to a negligible probability); the salt comes back from its
  JSON text, which is not empty.
\<close>

definition cipher_correct :: "'k platform \<Rightarrow> bool" where
  "cipher_correct P = (\<forall>k iv p. aes_gcm_decrypt P k iv (aes_gcm_encrypt P k iv p) = Some p)"



definition salt_roundtrip :: "'k platform \<Rightarrow> bool" where
  "salt_roundtrip P = (\<forall>bs. bytes_of_json P (Some (bytes_to_json P bs)) = Some bs
     \<and> bytes_to_json P bs \<noteq> [])"

section \<open>CryptoService\<close>

text \<open>
  \<^verbatim>\<open>deriveKeyFromPIN(pin, salt)\<close>: the key material is \<^verbatim>\<open>encoder.encode(pin)\<close>, the
  derivation PBKDF2 with 200000 iterations.
\<close>

definition deriveKeyFromPIN :: "'k platform \<Rightarrow> js_string \<Rightarrow> byte list \<Rightarrow> 'k" where
  "deriveKeyFromPIN P pin salt = pbkdf2 P (TextEncoder_encode pin) salt 200000"

text \<open>
  \<^verbatim>\<open>encrypt(data, key)\<close>. \<open>iv\<close> stands for the twelve bytes that
  \<^verbatim>\<open>crypto.getRandomValues(new Uint8Array(12))\<close> draws: the model is a function, so what
  the code draws at random is an argument. The result is the Base64 text of the nonce
  followed by the ciphertext.
\<close>

definition encrypt :: "'k platform \<Rightarrow> byte list \<Rightarrow> js_string \<Rightarrow> 'k \<Rightarrow> js_string" where
  "encrypt P iv data key = btoa (iv @ aes_gcm_encrypt P key iv (TextEncoder_encode data))"

text \<open>
  \<^verbatim>\<open>decrypt(encryptedBase64, key)\<close>: everything is inside \<^verbatim>\<open>try\<close>, and the \<^verbatim>\<open>catch\<close>
  returns \<^verbatim>\<open>null\<close> (\<open>None\<close>): when \<^verbatim>\<open>atob\<close> throws and when the platform rejects the
  ciphertext. The nonce is \<^verbatim>\<open>combined.slice(0, 12)\<close>, the data \<^verbatim>\<open>combined.slice(12)\<close>.
\<close>

definition decrypt :: "'k platform \<Rightarrow> js_string \<Rightarrow> 'k \<Rightarrow> js_string option" where
  "decrypt P encryptedBase64 key =
     (case atob encryptedBase64 of
        None \<Rightarrow> None
      | Some combined \<Rightarrow>
          (case aes_gcm_decrypt P key (take 12 combined) (drop 12 combined) of
             None \<Rightarrow> None
           | Some decryptedData \<Rightarrow> Some (TextDecoder_decode decryptedData)))"

text \<open>
  A string is well formed when every surrogate code unit is half of a pair; only such a
  string has a UTF-8 encoding of its own.
\<close>

fun well_formed_units :: "nat list \<Rightarrow> bool" where
  "well_formed_units [] = True"
| "well_formed_units [u] = (\<not> lead_surrogate u \<and> \<not> trail_surrogate u)"
| "well_formed_units (u # v # us) =
     (if lead_surrogate u then trail_surrogate v \<and> well_formed_units us
      else \<not> trail_surrogate u \<and> well_formed_units (v # us))"

definition well_formed :: "js_string \<Rightarrow> bool" where
  "well_formed s = well_formed_units (map unat s)"

text \<open>The string begins with U+FEFF, the byte order mark.\<close>

definition starts_with_bom :: "js_string \<Rightarrow> bool" where
  "starts_with_bom s = (case s of [] \<Rightarrow> False | u # _ \<Rightarrow> u = 0xFEFF)"

section \<open>StorageService: the in-memory database and its coalesced durable write\<close>

text \<open>
  \<^verbatim>\<open>StorageService\<close> holds the in-memory database \<^verbatim>\<open>db\<close> and the flags
  \<^verbatim>\<open>isInitialized\<close>, \<^verbatim>\<open>isSaving\<close> and \<^verbatim>\<open>saveQueue\<close>. JavaScript runs one piece of code at
  a time and an \<^verbatim>\<open>async\<close> function gives way only at an \<^verbatim>\<open>await\<close>, so the service is a
  state machine whose steps are the pieces of code between two awaits:

  \<^item> \<open>Exec q\<close>: a caller invokes \<^verbatim>\<open>execute(sql, params)\<close>; the code runs up to the
    \<^verbatim>\<open>await this.saveDbToIndexedDB()\<close> of \<^verbatim>\<open>scheduleSave\<close>, or to its end;
  \<^item> \<open>Finish i ok\<close>: the IndexedDB transaction of the write that call \<open>i\<close> awaits completes
    (\<^verbatim>\<open>oncomplete\<close>, \<open>ok\<close>) or fails (\<^verbatim>\<open>onerror\<close>);
  \<^item> \<open>Resume i\<close>: the code of call \<open>i\<close> after that \<^verbatim>\<open>await\<close> runs.

  Every call of \<^verbatim>\<open>execute\<close> has an entry in \<open>calls\<close>, in call order: it awaits a write
  (\<open>AwaitWrite\<close>, with the snapshot that \<^verbatim>\<open>this.db.export()\<close> took when the write began),
  its write has settled and its code has not resumed yet (\<open>Settled\<close>), its promise is
  resolved, or it is rejected. \<open>idb\<close> is the entry \<^verbatim>\<open>db_file\<close> of the IndexedDB store.

  The database \<open>'d\<close> and the statements \<open>'q\<close> are parameters, with \<open>run q d\<close> the
  effect of \<^verbatim>\<open>this.db.run(sql, params)\<close>: \<open>None\<close> when the engine throws, and then
  the database is taken to be as before (the calls modelled here pass one statement each).
  The counter \<open>nrun\<close> is bookkeeping on which no step depends: it counts the statements
  run, and a snapshot carries its value, which tells how many statements the snapshot
  includes.
\<close>

datatype 'd call = AwaitWrite "nat \<times> 'd" | Settled bool | Resolved | Rejected error

record 'd storage =
  db :: 'd
  isInitialized :: bool
  isSaving :: bool
  saveQueue :: bool
  idb :: "(nat \<times> 'd) option"
  nrun :: nat
  calls :: "'d call list"

datatype 'q event = Exec 'q | Finish nat bool | Resume nat

text \<open>
  \<^verbatim>\<open>scheduleSave\<close> up to its first \<^verbatim>\<open>await\<close>, for call \<open>i\<close>: with a save running it sets
  \<^verbatim>\<open>saveQueue\<close> and returns; otherwise it sets \<^verbatim>\<open>isSaving\<close> and starts
  \<^verbatim>\<open>saveDbToIndexedDB\<close>, whose promise executor exports the database at once.
\<close>

definition scheduleSave :: "nat \<Rightarrow> 'd storage \<Rightarrow> 'd storage" where
  "scheduleSave i s =
     (if isSaving s then s\<lparr>saveQueue := True, calls := (calls s)[i := Resolved]\<rparr>
      else s\<lparr>isSaving := True, calls := (calls s)[i := AwaitWrite (nrun s, db s)]\<rparr>)"

text \<open>
  \<^verbatim>\<open>execute\<close>: it throws when the service is not initialized, \<^verbatim>\<open>this.db.run\<close> may
  throw, and then comes \<^verbatim>\<open>await this.scheduleSave()\<close>. The new call is entry
  \<open>length (calls s)\<close>.
\<close>

definition execute :: "('q \<Rightarrow> 'd \<Rightarrow> 'd option) \<Rightarrow> 'q \<Rightarrow> 'd storage \<Rightarrow> 'd storage" where
  "execute run q s =
     (if \<not> isInitialized s then s\<lparr>calls := calls s @ [Rejected NotInitialized]\<rparr>
      else case run q (db s) of
        None \<Rightarrow> s\<lparr>calls := calls s @ [Rejected SqlError]\<rparr>
      | Some d' \<Rightarrow>
          scheduleSave (length (calls s))
            (s\<lparr>db := d', nrun := Suc (nrun s), calls := calls s @ [Resolved]\<rparr>))"

text \<open>
  The end of \<^verbatim>\<open>saveDbToIndexedDB\<close>: \<^verbatim>\<open>transaction.oncomplete\<close> resolves the promise
  after the \<^verbatim>\<open>put\<close> of the snapshot, \<^verbatim>\<open>onerror\<close> rejects it and stores nothing.
\<close>

definition saveDbToIndexedDB_done :: "nat \<Rightarrow> bool \<Rightarrow> 'd storage \<Rightarrow> 'd storage" where
  "saveDbToIndexedDB_done i ok s =
     (if i < length (calls s) then
        (case calls s ! i of
           AwaitWrite snap \<Rightarrow>
             s\<lparr>idb := (if ok then Some snap else idb s), calls := (calls s)[i := Settled ok]\<rparr>
         | _ \<Rightarrow> s)
      else s)"

text \<open>
  \<^verbatim>\<open>scheduleSave\<close> after \<^verbatim>\<open>await this.saveDbToIndexedDB()\<close>. When the write succeeded:
  \<^verbatim>\<open>isSaving = false\<close>, and with \<^verbatim>\<open>saveQueue\<close> set the flag is cleared and \<^verbatim>\<open>scheduleSave\<close>
  is called again. When the write failed the \<^verbatim>\<open>await\<close> throws: there is no \<^verbatim>\<open>try\<close>, so
  the lines below it do not run and the rejection reaches the caller of \<^verbatim>\<open>execute\<close>.
\<close>

definition scheduleSave_resume :: "nat \<Rightarrow> 'd storage \<Rightarrow> 'd storage" where
  "scheduleSave_resume i s =
     (if i < length (calls s) then
        (case calls s ! i of
           Settled ok \<Rightarrow>
             if ok then
               (let s1 = s\<lparr>isSaving := False\<rparr> in
                if saveQueue s1 then scheduleSave i (s1\<lparr>saveQueue := False\<rparr>)
                else s1\<lparr>calls := (calls s1)[i := Resolved]\<rparr>)
             else s\<lparr>calls := (calls s)[i := Rejected IOError]\<rparr>
         | _ \<Rightarrow> s)
      else s)"

fun step :: "('q \<Rightarrow> 'd \<Rightarrow> 'd option) \<Rightarrow> 'd storage \<Rightarrow> 'q event \<Rightarrow> 'd storage" where
  "step run s (Exec q) = execute run q s"
| "step run s (Finish i ok) = saveDbToIndexedDB_done i ok s"
| "step run s (Resume i) = scheduleSave_resume i s"

definition run_events ::
  "('q \<Rightarrow> 'd \<Rightarrow> 'd option) \<Rightarrow> 'q event list \<Rightarrow> 'd storage \<Rightarrow> 'd storage" where
  "run_events run es s = foldl (step run) s es"

text \<open>The service after a successful \<^verbatim>\<open>init\<close>, with database \<open>d\<close> and stored file \<open>st\<close>.\<close>

definition fresh :: "'d \<Rightarrow> (nat \<times> 'd) option \<Rightarrow> 'd storage" where
  "fresh d st = \<lparr>db = d, isInitialized = True, isSaving = False, saveQueue = False,
     idb = st, nrun = 0, calls = []\<rparr>"










text \<open>The store holds a snapshot that includes the first \<open>n\<close> statements.\<close>

definition persisted :: "nat \<Rightarrow> 'd storage \<Rightarrow> bool" where
  "persisted n s = (case idb s of None \<Rightarrow> False | Some snap \<Rightarrow> n \<le> fst snap)"

text \<open>
  The invariants of the reachable states. A snapshot \<open>fits\<close> when it is the database of
  now, or is older and \<^verbatim>\<open>saveQueue\<close> is set.
\<close>

definition fits :: "'d storage \<Rightarrow> nat \<times> 'd \<Rightarrow> bool" where
  "fits s snap = (fst snap \<le> nrun s \<and> (fst snap = nrun s \<longrightarrow> snd snap = db s)
      \<and> (fst snap < nrun s \<longrightarrow> saveQueue s))"

fun call_ok :: "'d storage \<Rightarrow> 'd call \<Rightarrow> bool" where
  "call_ok s (AwaitWrite snap) = fits s snap"
| "call_ok s (Settled ok) = (ok \<longrightarrow> (\<exists>snap. idb s = Some snap \<and> fits s snap))"
| "call_ok s _ = False"






text \<open>
  \<^verbatim>\<open>query\<close> reads the in-memory database and throws when the service is not
  initialized; \<open>select\<close> stands for the rows that the \<^verbatim>\<open>SELECT\<close> gives.
\<close>

definition query :: "('d \<Rightarrow> 'r list) \<Rightarrow> 'd storage \<Rightarrow> error + 'r list" where
  "query select s = (if \<not> isInitialized s then Inl NotInitialized else Inr (select (db s)))"

text \<open>
  A caller that does \<^verbatim>\<open>await StorageService.execute(...)\<close> and nothing else meanwhile:
  the call is made, and while its promise is not settled the running write completes and
  the call resumes. \<open>io\<close> lists the outcomes of the writes to come; when it runs out the
  write never completes and the caller waits for ever (\<open>Pending\<close>).
\<close>

datatype 'a outcome = Returned 'a | Threw error | Pending

fun await_call :: "nat \<Rightarrow> bool list \<Rightarrow> 'd storage \<Rightarrow> unit outcome \<times> 'd storage \<times> bool list" where
  "await_call i [] s =
     (case calls s ! i of
        Resolved \<Rightarrow> (Returned (), s, [])
      | Rejected e \<Rightarrow> (Threw e, s, [])
      | _ \<Rightarrow> (Pending, s, []))"
| "await_call i (ok # io) s =
     (case calls s ! i of
        Resolved \<Rightarrow> (Returned (), s, ok # io)
      | Rejected e \<Rightarrow> (Threw e, s, ok # io)
      | _ \<Rightarrow> await_call i io (scheduleSave_resume i (saveDbToIndexedDB_done i ok s)))"

definition execute_await ::
  "('q \<Rightarrow> 'd \<Rightarrow> 'd option) \<Rightarrow> 'q \<Rightarrow> bool list \<Rightarrow> 'd storage
     \<Rightarrow> unit outcome \<times> 'd storage \<times> bool list" where
  "execute_await run q io s = await_call (length (calls s)) io (execute run q s)"

section \<open>The statements of the application\<close>

text \<open>
  The SQL that the modelled code passes to \<^verbatim>\<open>execute\<close>: the two \<^verbatim>\<open>DELETE FROM\<close> and the
  two \<^verbatim>\<open>INSERT INTO ... VALUES\<close> of the backup import, and the \<^verbatim>\<open>REPLACE INTO settings\<close>
  of \<^verbatim>\<open>Settings.set\<close>. A statement touches the table it names.
\<close>

datatype stmt = DeleteFromNotes | DeleteFromEvents
  | InsertIntoNotes "jsval list" | InsertIntoEvents "jsval list"
  | ReplaceIntoSettings js_string js_string

definition sql :: "'k platform \<Rightarrow> stmt \<Rightarrow> database \<Rightarrow> database option" where
  "sql P q d =
     (case q of
        DeleteFromNotes \<Rightarrow> Some (d\<lparr>tbl_notes := []\<rparr>)
      | DeleteFromEvents \<Rightarrow> Some (d\<lparr>tbl_events := []\<rparr>)
      | InsertIntoNotes vals \<Rightarrow>
          map_option (\<lambda>rows. d\<lparr>tbl_notes := rows\<rparr>) (insert_note P vals (tbl_notes d))
      | InsertIntoEvents vals \<Rightarrow>
          map_option (\<lambda>rows. d\<lparr>tbl_events := rows\<rparr>) (insert_event P vals (tbl_events d))
      | ReplaceIntoSettings k v \<Rightarrow>
          Some (d\<lparr>tbl_settings := filter (\<lambda>kv. fst kv \<noteq> k) (tbl_settings d) @ [(k, v)]\<rparr>))"

fun writes_settings :: "stmt \<Rightarrow> bool" where
  "writes_settings (ReplaceIntoSettings k v) = True"
| "writes_settings q = False"

section \<open>The models Note and Event\<close>

text \<open>
  The records that \<^verbatim>\<open>decryptRow\<close> returns. A decrypted field is a string or \<^verbatim>\<open>null\<close>;
  the tags of a note are whatever \<^verbatim>\<open>JSON.parse\<close> returns.
\<close>

record note_obj =
  note_id :: js_string
  note_title :: "js_string option"
  note_content :: "js_string option"
  note_tags :: jsval
  note_createdAt :: "int option"
  note_updatedAt :: "int option"
  note_isFavorite :: bool

record event_obj =
  event_id :: js_string
  event_title :: "js_string option"
  event_description :: "js_string option"
  event_startTime :: int
  event_endTime :: "int option"
  event_isAllDay :: bool
  event_calendarType :: js_string
  event_rrule :: "js_string option"

text \<open>
  \<^verbatim>\<open>Note.decryptRow\<close>. The three fields are decrypted on their own; \<^verbatim>\<open>decrypt\<close> never
  throws. A column that holds \<^verbatim>\<open>NULL\<close> reaches \<^verbatim>\<open>atob\<close> as the string \<^verbatim>\<open>"null"\<close>. The
  tags go through \<^verbatim>\<open>.then(JSON.parse)\<close>: \<^verbatim>\<open>JSON.parse(null)\<close> is \<^verbatim>\<open>null\<close>, and a text
  that is not JSON makes \<^verbatim>\<open>Promise.all\<close> reject, the only way this function fails.
\<close>

definition Note_decryptRow :: "'k platform \<Rightarrow> note_row \<Rightarrow> 'k \<Rightarrow> error + note_obj" where
  "Note_decryptRow P row masterKey =
     (let title = decrypt P (or_null (n_title_encrypted row)) masterKey;
          content = decrypt P (or_null (n_content_encrypted row)) masterKey;
          tags = (case decrypt P (or_null (n_tags_encrypted row)) masterKey of
                    None \<Rightarrow> Some JNull
                  | Some text \<Rightarrow> json_parse P text)
      in case tags of
           None \<Rightarrow> Inl SyntaxError
         | Some tags \<Rightarrow>
             Inr \<lparr>note_id = n_id row, note_title = title, note_content = content,
                  note_tags = tags, note_createdAt = n_created_at row,
                  note_updatedAt = n_updated_at row,
                  note_isFavorite = (n_is_favorite row = Some 1)\<rparr>)"

text \<open>\<^verbatim>\<open>Note.findById\<close>: \<^verbatim>\<open>SELECT * FROM notes WHERE id = ?\<close>, then the first row.\<close>

definition Note_findById ::
  "'k platform \<Rightarrow> js_string \<Rightarrow> 'k \<Rightarrow> database storage \<Rightarrow> error + note_obj option" where
  "Note_findById P i masterKey s =
     (case query (\<lambda>d. filter (\<lambda>r. n_id r = i) (tbl_notes d)) s of
        Inl e \<Rightarrow> Inl e
      | Inr [] \<Rightarrow> Inr None
      | Inr (row # _) \<Rightarrow> map_sum id Some (Note_decryptRow P row masterKey))"

text \<open>
  \<^verbatim>\<open>Event.decryptRow\<close>: as for a note, without \<^verbatim>\<open>JSON.parse\<close>, so it always returns a
  record; the rule is decrypted only when the column is truthy.
\<close>

definition Event_decryptRow :: "'k platform \<Rightarrow> event_row \<Rightarrow> 'k \<Rightarrow> event_obj" where
  "Event_decryptRow P row masterKey =
     \<lparr>event_id = e_id row,
      event_title = decrypt P (e_title_encrypted row) masterKey,
      event_description = decrypt P (or_null (e_description_encrypted row)) masterKey,
      event_startTime = e_start_time row,
      event_endTime = e_end_time row,
      event_isAllDay = (e_is_all_day row = Some 1),
      event_calendarType = e_calendar_type row,
      event_rrule = (if falsy (e_rrule_encrypted row) then None
                     else decrypt P (or_null (e_rrule_encrypted row)) masterKey)\<rparr>"



section \<open>authController\<close>

text \<open>
  The state of the controller, the entries of \<^verbatim>\<open>localStorage\<close> by their keys, and the
  events that \<^verbatim>\<open>$dispatch\<close> sends: \<^verbatim>\<open>app-unlocked\<close> with the key, \<^verbatim>\<open>unlock-failed\<close> with
  nothing.
\<close>

record 'k authController =
  isLocked :: bool
  isNewUser :: bool
  masterKey :: "'k option"

type_synonym localStorage = "string \<Rightarrow> js_string option"


text \<open>
  A page load: \<^verbatim>\<open>authController()\<close> builds the state \<^verbatim>\<open>{isLocked: true, isNewUser: false,
  masterKey: null}\<close> and \<^verbatim>\<open>init()\<close> sets \<^verbatim>\<open>isNewUser\<close> from the two credentials.
\<close>

definition authController_init :: "localStorage \<Rightarrow> 'k authController" where
  "authController_init ls =
     \<lparr>isLocked = True,
      isNewUser = (falsy (ls ''user_salt'') \<or> falsy (ls ''verification_data'')),
      masterKey = None\<rparr>"


text \<open>
  \<^verbatim>\<open>setupNewPIN\<close>. \<open>salt\<close> is what \<^verbatim>\<open>generateSalt()\<close> draws (16 random bytes) and
  \<open>iv\<close> the nonce that \<^verbatim>\<open>encrypt\<close> draws. The function stores the two credentials and ends
  with \<^verbatim>\<open>window.location.reload()\<close>: the result is the controller of the reloaded page
  and the storage. It assigns neither \<^verbatim>\<open>masterKey\<close> nor \<^verbatim>\<open>isLocked\<close>.
\<close>

definition setupNewPIN ::
  "'k platform \<Rightarrow> byte list \<Rightarrow> byte list \<Rightarrow> js_string \<Rightarrow> 'k authController \<Rightarrow> localStorage
     \<Rightarrow> 'k authController \<times> localStorage" where
  "setupNewPIN P salt iv pin a ls =
     (if \<not> isNewUser a then (a, ls)
      else
        (let key = deriveKeyFromPIN P pin salt;
             verificationData = encrypt P iv (js ''verified'') key;
             ls' = ls(''user_salt'' \<mapsto> bytes_to_json P salt,
                      ''verification_data'' \<mapsto> verificationData)
         in (authController_init ls', ls')))"

section \<open>settingsController: the backup import\<close>

text \<open>
  Reading a property of a parsed value: a \<^verbatim>\<open>TypeError\<close> on \<^verbatim>\<open>null\<close> and \<^verbatim>\<open>undefined\<close>,
  the member of an object, and \<^verbatim>\<open>undefined\<close> otherwise (the names read here, \<^verbatim>\<open>data\<close>,
  \<^verbatim>\<open>notes\<close>, \<^verbatim>\<open>events\<close>, \<^verbatim>\<open>salt\<close> and \<^verbatim>\<open>verificationData\<close>, are properties of no array,
  string, number or boolean). \<^verbatim>\<open>for ... of\<close> runs over the elements of an array and the
  code points of a string, and throws on anything else.
\<close>

definition js_get :: "jsval \<Rightarrow> string \<Rightarrow> error + jsval" where
  "js_get v name =
     (case v of
        JUndefined \<Rightarrow> Inl TypeError
      | JNull \<Rightarrow> Inl TypeError
      | JObj members \<Rightarrow> Inr (case map_of members (js name) of None \<Rightarrow> JUndefined | Some x \<Rightarrow> x)
      | _ \<Rightarrow> Inr JUndefined)"

fun code_points :: "js_string \<Rightarrow> js_string list" where
  "code_points [] = []"
| "code_points [u] = [[u]]"
| "code_points (u # v # us) =
     (if lead_surrogate (unat u) \<and> trail_surrogate (unat v) then [u, v] # code_points us
      else [u] # code_points (v # us))"

definition js_iterate :: "jsval \<Rightarrow> error + jsval list" where
  "js_iterate v =
     (case v of
        JArr xs \<Rightarrow> Inr xs
      | JStr s \<Rightarrow> Inr (map JStr (code_points s))
      | _ \<Rightarrow> Inl TypeError)"

definition and_then :: "error + 'a \<Rightarrow> ('a \<Rightarrow> error + 'b) \<Rightarrow> error + 'b" where
  "and_then r f = (case r of Inl e \<Rightarrow> Inl e | Inr x \<Rightarrow> f x)"

text \<open>
  One of the two loops \<^verbatim>\<open>for (const row of ...) await StorageService.execute('INSERT ...',
  Object.values(row))\<close>; the first exception ends it.
\<close>

fun insert_all ::
  "'k platform \<Rightarrow> (jsval list \<Rightarrow> stmt) \<Rightarrow> jsval list \<Rightarrow> bool list \<Rightarrow> database storage
     \<Rightarrow> unit outcome \<times> database storage \<times> bool list" where
  "insert_all P mk [] io s = (Returned (), s, io)"
| "insert_all P mk (row # rows) io s =
     (case object_values P row of
        None \<Rightarrow> (Threw TypeError, s, io)
      | Some vals \<Rightarrow>
          (case execute_await (sql P) (mk vals) io s of
             (Returned u, s', io') \<Rightarrow> insert_all P mk rows io' s'
           | (Threw e, s', io') \<Rightarrow> (Threw e, s', io')
           | (Pending, s', io') \<Rightarrow> (Pending, s', io')))"

text \<open>
  How \<^verbatim>\<open>importData\<close> ends: with the alert that asks for a file and a PIN of four
  characters, by the user declining \<^verbatim>\<open>confirm\<close>, with the page reloaded after the import,
  in the \<^verbatim>\<open>catch\<close> with the exception, or never, behind a write that does not complete.
\<close>

datatype import_result = Alerted | Cancelled | Imported | ImportFailed error | ImportPending

text \<open>
  The part of \<^verbatim>\<open>importData\<close> after \<^verbatim>\<open>JSON.parse\<close>, steps 2 to 4 of the source: the two
  deletions, the two loops (\<^verbatim>\<open>backupData.data.notes\<close> is read after the deletions,
  \<^verbatim>\<open>backupData.data.events\<close> after the first loop), and the two credentials.
\<close>

definition finish_import ::
  "unit outcome \<times> database storage \<times> bool list \<Rightarrow> localStorage
     \<Rightarrow> (bool list \<Rightarrow> database storage \<Rightarrow> import_result \<times> database storage \<times> localStorage)
     \<Rightarrow> import_result \<times> database storage \<times> localStorage" where
  "finish_import r ls next =
     (case r of
        (Returned u, s, io) \<Rightarrow> next io s
      | (Threw e, s, io) \<Rightarrow> (ImportFailed e, s, ls)
      | (Pending, s, io) \<Rightarrow> (ImportPending, s, ls))"

definition replace_all ::
  "'k platform \<Rightarrow> jsval \<Rightarrow> bool list \<Rightarrow> database storage \<Rightarrow> localStorage
     \<Rightarrow> import_result \<times> database storage \<times> localStorage" where
  "replace_all P backupData io s ls =
     finish_import (execute_await (sql P) DeleteFromNotes io s) ls (\<lambda>io s.
     finish_import (execute_await (sql P) DeleteFromEvents io s) ls (\<lambda>io s.
     case and_then (and_then (js_get backupData ''data'') (\<lambda>d. js_get d ''notes'')) js_iterate of
       Inl e \<Rightarrow> (ImportFailed e, s, ls)
     | Inr ns \<Rightarrow>
     finish_import (insert_all P InsertIntoNotes ns io s) ls (\<lambda>io s.
     case and_then (and_then (js_get backupData ''data'') (\<lambda>d. js_get d ''events'')) js_iterate of
       Inl e \<Rightarrow> (ImportFailed e, s, ls)
     | Inr es \<Rightarrow>
     finish_import (insert_all P InsertIntoEvents es io s) ls (\<lambda>io s.
     case and_then (js_get backupData ''salt'') (\<lambda>salt.
          and_then (js_get backupData ''verificationData'') (\<lambda>vd. Inr (salt, vd))) of
       Inl e \<Rightarrow> (ImportFailed e, s, ls)
     | Inr (salt, vd) \<Rightarrow>
         (Imported, s, ls(''user_salt'' \<mapsto> to_string P salt,
                          ''verification_data'' \<mapsto> to_string P vd))))))"

text \<open>
  \<^verbatim>\<open>importData(file, pin)\<close>. \<open>file\<close> is the text of the chosen file, or \<open>None\<close> when
  none was chosen; \<open>confirmed\<close> is the answer to \<^verbatim>\<open>confirm\<close>. The key is derived with
  the salt of this device. \<^verbatim>\<open>!backupJson\<close> is true for \<^verbatim>\<open>null\<close> and for the empty string.
\<close>

definition importData ::
  "'k platform \<Rightarrow> js_string option \<Rightarrow> js_string \<Rightarrow> bool \<Rightarrow> bool list \<Rightarrow> database storage
     \<Rightarrow> localStorage \<Rightarrow> import_result \<times> database storage \<times> localStorage" where
  "importData P file pin confirmed io s ls =
     (case file of
        None \<Rightarrow> (Alerted, s, ls)
      | Some encryptedBackup \<Rightarrow>
          if pin = [] \<or> length pin \<noteq> 4 then (Alerted, s, ls)
          else if \<not> confirmed then (Cancelled, s, ls)
          else
            (case bytes_of_json P (ls ''user_salt'') of
               None \<Rightarrow> (ImportFailed SyntaxError, s, ls)
             | Some tempSalt \<Rightarrow>
                 (let key = deriveKeyFromPIN P pin tempSalt;
                      backupJson = decrypt P encryptedBackup key
                  in if falsy backupJson then (ImportFailed DecryptFailed, s, ls)
                     else
                       (case json_parse P (or_null backupJson) of
                          None \<Rightarrow> (ImportFailed SyntaxError, s, ls)
                        | Some backupData \<Rightarrow> replace_all P backupData io s ls))))"

section \<open>A platform for examples\<close>

text \<open>
  A stand-in for the browser, used to run the model on concrete inputs: a key is its
  password followed by the salt, a ciphertext is the key written in a prefix code followed
  by the plaintext, so that only the same key decrypts it; the parser knows the texts
  \<^verbatim>\<open>[]\<close> and \<^verbatim>\<open>backup\<close>.
\<close>

definition toy_tag :: "byte list \<Rightarrow> byte list" where
  "toy_tag k = concat (map (\<lambda>b. [1, b]) k) @ [0]"

definition toy_encrypt :: "byte list \<Rightarrow> byte list \<Rightarrow> byte list \<Rightarrow> byte list" where
  "toy_encrypt k iv p = toy_tag k @ p"

definition toy_decrypt :: "byte list \<Rightarrow> byte list \<Rightarrow> byte list \<Rightarrow> byte list option" where
  "toy_decrypt k iv c =
     (if take (length (toy_tag k)) c = toy_tag k then Some (drop (length (toy_tag k)) c)
      else None)"

definition toy_backup :: jsval where
  "toy_backup = JObj
     [(js ''salt'', JStr (js ''[9]'')),
      (js ''verificationData'', JStr (js ''token'')),
      (js ''data'', JObj
         [(js ''notes'', JArr [JObj [(js ''id'', JStr (js ''n2''))]]),
          (js ''events'', JArr [])])]"

definition toy_json_parse :: "js_string \<Rightarrow> jsval option" where
  "toy_json_parse s =
     (if s = js ''[]'' then Some (JArr [])
      else if s = js ''backup'' then Some toy_backup
      else None)"

definition toy_bytes_to_json :: "byte list \<Rightarrow> js_string" where
  "toy_bytes_to_json bs = 91 # map ucast bs"

definition toy_bytes_of_json :: "js_string option \<Rightarrow> byte list option" where
  "toy_bytes_of_json v =
     (case v of
        None \<Rightarrow> Some []
      | Some [] \<Rightarrow> None
      | Some (c # cs) \<Rightarrow> if c = 91 then Some (map ucast cs) else None)"

definition toy_to_string :: "jsval \<Rightarrow> js_string" where
  "toy_to_string v = (case v of JStr s \<Rightarrow> s | JNull \<Rightarrow> js ''null'' | _ \<Rightarrow> js ''undefined'')"

definition toy_object_values :: "jsval \<Rightarrow> jsval list option" where
  "toy_object_values v =
     (case v of
        JObj members \<Rightarrow> Some (map snd members)
      | JArr xs \<Rightarrow> Some xs
      | JNull \<Rightarrow> None
      | JUndefined \<Rightarrow> None
      | _ \<Rightarrow> Some [])"

definition toy_note_row :: "js_string \<Rightarrow> note_row" where
  "toy_note_row i = \<lparr>n_id = i, n_title_encrypted = None, n_content_encrypted = None,
     n_created_at = None, n_updated_at = None, n_tags_encrypted = None, n_is_favorite = None\<rparr>"

definition toy_event_row :: "js_string \<Rightarrow> int \<Rightarrow> event_row" where
  "toy_event_row i t = \<lparr>e_id = i, e_title_encrypted = [], e_description_encrypted = None,
     e_start_time = t, e_end_time = None, e_is_all_day = None, e_calendar_type = [],
     e_rrule_encrypted = None\<rparr>"

definition toy_insert_note :: "jsval list \<Rightarrow> note_row list \<Rightarrow> note_row list option" where
  "toy_insert_note vals rows =
     (case vals of [JStr i] \<Rightarrow> Some (rows @ [toy_note_row i]) | _ \<Rightarrow> None)"

definition toy_insert_event :: "jsval list \<Rightarrow> event_row list \<Rightarrow> event_row list option" where
  "toy_insert_event vals rows =
     (case vals of [JStr i, JNum t] \<Rightarrow> Some (rows @ [toy_event_row i t]) | _ \<Rightarrow> None)"

definition toy :: "byte list platform" where
  "toy = \<lparr>pbkdf2 = (\<lambda>password salt iterations. password @ salt),
     aes_gcm_encrypt = toy_encrypt, aes_gcm_decrypt = toy_decrypt,
     json_parse = toy_json_parse,
     bytes_to_json = toy_bytes_to_json, bytes_of_json = toy_bytes_of_json,
     to_string = toy_to_string, object_values = toy_object_values,
     insert_note = toy_insert_note, insert_event = toy_insert_event\<rparr>"

text \<open>A nonce of twelve bytes for the examples.\<close>

definition iv0 :: "byte list" where
  "iv0 = [0, 1, 2, 3, 4, 5, 6, 7, 8, 9, 10, 11]"

text \<open>
  A device for the examples: one note, one event and one setting in the database, the
  salt \<open>[7]\<close> in \<^verbatim>\<open>localStorage\<close>, and a backup file made with the PIN \<^verbatim>\<open>1234\<close>.
\<close>

definition toy_database :: database where
  "toy_database = \<lparr>tbl_notes = [toy_note_row (js ''n1'')],
     tbl_events = [toy_event_row (js ''e1'') 10],
     tbl_settings = [(js ''theme'', js ''dark'')]\<rparr>"

definition toy_localStorage :: localStorage where
  "toy_localStorage = [''user_salt'' \<mapsto> toy_bytes_to_json [7],
     ''verification_data'' \<mapsto> js ''old'']"

definition toy_file :: js_string where
  "toy_file = encrypt toy iv0 (js ''backup'') (deriveKeyFromPIN toy (js ''1234'') [7])"

chapter \<open>Properties\<close>

section \<open>The write scheduler: invariants\<close>





lemma call_ok_calls [simp]: "call_ok (s\<lparr>calls := cs\<rparr>) c = call_ok s c"
  by (cases c) (simp_all add: fits_def)



























lemma persisted_simps [simp]:
  "persisted n (s\<lparr>calls := cs\<rparr>) = persisted n s"
  "persisted n (s\<lparr>db := d\<rparr>) = persisted n s"
  "persisted n (s\<lparr>nrun := k\<rparr>) = persisted n s"
  "persisted n (s\<lparr>isSaving := b\<rparr>) = persisted n s"
  "persisted n (s\<lparr>saveQueue := b\<rparr>) = persisted n s"
  "persisted n (s\<lparr>idb := Some snap\<rparr>) = (n \<le> fst snap)"
  by (simp_all add: persisted_def)








lemma done_frame:
  "isInitialized (saveDbToIndexedDB_done i ok s) = isInitialized s"
  "db (saveDbToIndexedDB_done i ok s) = db s"
  by (auto simp: saveDbToIndexedDB_done_def split: call.splits)

lemma resume_frame:
  "isInitialized (scheduleSave_resume i s) = isInitialized s"
  "db (scheduleSave_resume i s) = db s"
  by (auto simp: scheduleSave_resume_def scheduleSave_def Let_def split: call.splits)



lemma run_events_append: "run_events run (es @ fs) s = run_events run fs (run_events run es s)"
  by (simp add: run_events_def)

lemma run_events_Cons: "run_events run (e # es) s = run_events run es (step run s e)"
  by (simp add: run_events_def)

section \<open>The write scheduler: the claims\<close>








lemma fresh_sel:
  "db (fresh d st) = d" "isInitialized (fresh d st)" "\<not> isSaving (fresh d st)"
  "\<not> saveQueue (fresh d st)" "idb (fresh d st) = st" "nrun (fresh d st) = 0"
  "calls (fresh d st) = []"
  by (simp_all add: fresh_def)






section \<open>Base64 and UTF-8 round trips\<close>


lemma b64_sextets_bound:
  "\<forall>n\<in>set ns. n < 256 \<Longrightarrow> \<forall>s\<in>set (b64_sextets ns). s < 64"
  by (induction ns rule: b64_sextets.induct) auto

lemma b64_decode_sextets:
  "\<forall>n\<in>set ns. n < 256 \<Longrightarrow> b64_decode (b64_sextets ns) = ns"
  by (induction ns rule: b64_sextets.induct) auto

lemma length_b64_sextets:
  "length (b64_sextets ns) mod 4 = (if length ns mod 3 = 0 then 0 else length ns mod 3 + 1)"
  by (induction ns rule: b64_sextets.induct) auto

lemma unat_b64_char: "s < 64 \<Longrightarrow> unat (b64_char s) = (if s < 26 then 65 + s else if s < 52 then 71 + s
     else if s < 62 then s - 4 else if s = 62 then 43 else 47)"
  by (simp add: b64_char_def unat_of_nat)

lemma b64_index_char: "s < 64 \<Longrightarrow> b64_index (b64_char s) = Some s"
  by (auto simp add: b64_index_def unat_b64_char Let_def)

lemma b64_char_plain: "s < 64 \<Longrightarrow> b64_char s \<noteq> 61 \<and> \<not> ascii_whitespace (b64_char s)"
proof -
  assume a: "s < 64"
  have "unat (b64_char s) \<noteq> unat (c::16 word)" if "unat c \<in> {61, 9, 10, 12, 13, 32}" for c
    using that a by (auto simp add: unat_b64_char split: if_splits)
  then have "b64_char s \<noteq> c" if "unat c \<in> {61, 9, 10, 12, 13, 32}" for c
    using that by auto
  from this [of 61] this [of 9] this [of 10] this [of 12] this [of 13] this [of 32]
  show ?thesis by (simp add: ascii_whitespace_def)
qed

lemma those_b64_index:
  "\<forall>s\<in>set ss. s < 64 \<Longrightarrow> those (map b64_index (map b64_char ss)) = Some ss"
  by (induction ss) (simp_all add: b64_index_char)

lemma strip_padding_plain:
  "body = [] \<or> last body \<noteq> 61 \<Longrightarrow> strip_padding body = body"
  by (auto simp: strip_padding_def)

lemma strip_padding_one:
  "body = [] \<or> last body \<noteq> 61 \<Longrightarrow> length body mod 4 = 3 \<Longrightarrow> strip_padding (body @ [61]) = body"
  by (auto simp: strip_padding_def) presburger+

lemma strip_padding_two:
  "body = [] \<or> last body \<noteq> 61 \<Longrightarrow> length body mod 4 = 2 \<Longrightarrow> strip_padding (body @ [61, 61]) = body"
  by (auto simp: strip_padding_def butlast_append) presburger+

lemma atob_btoa: "atob (btoa bs) = Some bs"
proof -
  define ns where "ns = map unat bs"
  define body where "body = map b64_char (b64_sextets ns)"
  define k where "k = (3 - length bs mod 3) mod 3"
  have n: "\<forall>n\<in>set ns. n < 256"
  proof
    fix n assume "n \<in> set ns"
    then obtain b :: byte where "n = unat b" by (auto simp: ns_def)
    then show "n < 256" using unsigned_less [of b] by simp
  qed
  then have sx: "\<forall>s\<in>set (b64_sextets ns). s < 64" by (rule b64_sextets_bound)
  have e: "btoa bs = body @ replicate k 61" by (simp add: btoa_def body_def ns_def k_def)
  have plain: "\<forall>c\<in>set body. c \<noteq> 61 \<and> \<not> ascii_whitespace c"
    using sx b64_char_plain by (auto simp: body_def)
  have ws61: "\<not> ascii_whitespace 61" by (simp add: ascii_whitespace_def)
  have f: "filter (\<lambda>c. \<not> ascii_whitespace c) (btoa bs) = body @ replicate k 61"
    using plain ws61 by (simp add: e filter_id_conv)
  have lb: "body = [] \<or> last body \<noteq> 61"
    using plain last_in_set [of body] by auto
  have len: "length body mod 4 = (if length bs mod 3 = 0 then 0 else length bs mod 3 + 1)"
    using length_b64_sextets [of ns] by (simp add: body_def ns_def)
  have m3: "length bs mod 3 = 0 \<or> length bs mod 3 = 1 \<or> length bs mod 3 = 2" by arith
  have sp: "strip_padding (body @ replicate k 61) = body"
  proof -
    consider "length bs mod 3 = 0" | "length bs mod 3 = 1" | "length bs mod 3 = 2" by atomize_elim arith
    then show ?thesis
    proof cases
      case 1
      then have "k = 0" by (simp add: k_def)
      then show ?thesis using lb by (simp add: strip_padding_plain)
    next
      case 2
      then have "k = 2" by (simp add: k_def)
      then have "replicate k (61::16 word) = [61, 61]" by (simp add: numeral_2_eq_2)
      then show ?thesis using lb len 2 by (simp add: strip_padding_two)
    next
      case 3
      then have "k = 1" by (simp add: k_def)
      then show ?thesis using lb len 3 by (simp add: strip_padding_one)
    qed
  qed
  have l1: "length body mod 4 \<noteq> 1" using len m3 by auto
  have th: "those (map b64_index body) = Some (b64_sextets ns)"
    unfolding body_def by (rule those_b64_index [OF sx])
  have "map word_of_nat (map unat bs) = bs" by (simp add: map_idI)
  then show ?thesis
    using l1 th b64_decode_sextets [OF n] by (simp add: atob_def f sp Let_def ns_def)
qed




lemma lead_mod:
  fixes x :: nat
  shows "x < 32 \<Longrightarrow> (192 + x) mod 32 = x" "x < 16 \<Longrightarrow> (224 + x) mod 16 = x"
    "x < 8 \<Longrightarrow> (240 + x) mod 8 = x" "x < 64 \<Longrightarrow> (128 + x) mod 64 = x"
  by (rule mod_nat_eqI; simp)+

lemma utf8_start:
  "utf8_first b = Multi n x lo hi \<Longrightarrow>
     utf8_decode 0 s c l h (b # bs) = utf8_decode n 0 x lo hi bs"
  by simp

lemma utf8_continue:
  "needed \<noteq> 0 \<Longrightarrow> lo \<le> b \<Longrightarrow> b \<le> hi \<Longrightarrow> Suc seen \<noteq> needed \<Longrightarrow>
     utf8_decode needed seen cp lo hi (b # bs) =
     utf8_decode needed (Suc seen) (cp * 64 + b mod 64) 0x80 0xBF bs"
  by simp

lemma utf8_finish:
  "needed \<noteq> 0 \<Longrightarrow> lo \<le> b \<Longrightarrow> b \<le> hi \<Longrightarrow> Suc seen = needed \<Longrightarrow>
     utf8_decode needed seen cp lo hi (b # bs) =
     (cp * 64 + b mod 64) # utf8_decode 0 0 0 0x80 0xBF bs"
  by simp

lemma utf8_decode_1:
  "c < 0x80 \<Longrightarrow> utf8_decode 0 0 0 0x80 0xBF (utf8_encode c @ rest) = c # utf8_decode 0 0 0 0x80 0xBF rest"
  by (simp add: utf8_encode_def utf8_first_def)

lemma utf8_decode_2:
  assumes "0x80 \<le> c" "c < 0x800"
  shows "utf8_decode 0 0 0 0x80 0xBF (utf8_encode c @ rest) = c # utf8_decode 0 0 0 0x80 0xBF rest"
proof -
  define x where "x = c div 64"
  define z where "z = c mod 64"
  have c: "c = x * 64 + z" by (simp add: x_def z_def)
  have z: "z < 64" by (simp add: z_def)
  have x: "2 \<le> x" "x < 32" using assms c z by linarith+
  have e: "utf8_encode c = [0xC0 + x, 0x80 + z]" using assms by (simp add: utf8_encode_def x_def z_def)
  have f: "utf8_first (0xC0 + x) = Multi 1 x 0x80 0xBF"
    using x by (simp add: utf8_first_def lead_mod)
  have "utf8_decode 0 0 0 0x80 0xBF ((0xC0 + x) # (0x80 + z) # rest)
      = utf8_decode 1 0 x 0x80 0xBF ((0x80 + z) # rest)"
    by (rule utf8_start [OF f])
  also have "\<dots> = (x * 64 + (0x80 + z) mod 64) # utf8_decode 0 0 0 0x80 0xBF rest"
    using z by (intro utf8_finish) simp_all
  finally have F: "utf8_decode 0 0 0 0x80 0xBF ((0xC0 + x) # (0x80 + z) # rest)
      = (x * 64 + (0x80 + z) mod 64) # utf8_decode 0 0 0 0x80 0xBF rest" .
  have "(0x80 + z) mod 64 = z" using z by (simp only: lead_mod)
  then have r: "x * 64 + (0x80 + z) mod 64 = c" by (simp only: c)
  show ?thesis by (simp only: e append_Cons append_Nil F r)
qed

lemma utf8_decode_3:
  assumes "0x800 \<le> c" "c < 0x10000" "\<not> (0xD800 \<le> c \<and> c \<le> 0xDFFF)"
  shows "utf8_decode 0 0 0 0x80 0xBF (utf8_encode c @ rest) = c # utf8_decode 0 0 0 0x80 0xBF rest"
proof -
  define q where "q = c div 64"
  define z where "z = c mod 64"
  define x where "x = q div 64"
  define y where "y = q mod 64"
  define lo where "lo = (if x = 0 then 0xA0 else (0x80::nat))"
  define hi where "hi = (if x = 13 then 0x9F else (0xBF::nat))"
  have c: "c = q * 64 + z" by (simp add: q_def z_def)
  have q: "q = x * 64 + y" by (simp add: x_def y_def)
  have z: "z < 64" by (simp add: z_def)
  have y: "y < 64" by (simp add: y_def)
  have "c div 4096 = c div (64 * 64)" by simp
  then have d: "c div 4096 = x" by (simp only: x_def q_def div_mult2_eq)
  have x: "x < 16" using assms c q z y by linarith
  have lo: "lo \<le> 0x80 + y"
  proof (cases "x = 0")
    case True
    then show ?thesis using assms c q z y unfolding lo_def by simp
  next
    case False
    then show ?thesis unfolding lo_def by simp
  qed
  have hi: "0x80 + y \<le> hi"
  proof (cases "x = 13")
    case True
    then have "y \<le> 31" using assms c q z y by linarith
    then show ?thesis using True unfolding hi_def by simp
  next
    case False
    then show ?thesis using y unfolding hi_def by simp
  qed
  have e: "utf8_encode c = [0xE0 + x, 0x80 + y, 0x80 + z]"
    using assms d by (simp add: utf8_encode_def y_def z_def q_def)
  have f: "utf8_first (0xE0 + x) = Multi 2 x lo hi"
    using x by (simp add: utf8_first_def lead_mod lo_def hi_def)
  have "utf8_decode 0 0 0 0x80 0xBF ((0xE0 + x) # (0x80 + y) # (0x80 + z) # rest)
      = utf8_decode 2 0 x lo hi ((0x80 + y) # (0x80 + z) # rest)"
    by (rule utf8_start [OF f])
  also have "\<dots> = utf8_decode 2 (Suc 0) (x * 64 + (0x80 + y) mod 64) 0x80 0xBF ((0x80 + z) # rest)"
    using lo hi by (intro utf8_continue) simp_all
  also have "\<dots> = ((x * 64 + (0x80 + y) mod 64) * 64 + (0x80 + z) mod 64)
      # utf8_decode 0 0 0 0x80 0xBF rest"
    using z by (intro utf8_finish) simp_all
  finally have F: "utf8_decode 0 0 0 0x80 0xBF ((0xE0 + x) # (0x80 + y) # (0x80 + z) # rest)
      = ((x * 64 + (0x80 + y) mod 64) * 64 + (0x80 + z) mod 64)
        # utf8_decode 0 0 0 0x80 0xBF rest" .
  have "(0x80 + y) mod 64 = y" "(0x80 + z) mod 64 = z" using y z by (simp_all only: lead_mod)
  then have r: "(x * 64 + (0x80 + y) mod 64) * 64 + (0x80 + z) mod 64 = c"
    by (simp only: c q)
  show ?thesis by (simp only: e append_Cons append_Nil F r)
qed

lemma utf8_decode_4:
  assumes "0x10000 \<le> c" "c < 0x110000"
  shows "utf8_decode 0 0 0 0x80 0xBF (utf8_encode c @ rest) = c # utf8_decode 0 0 0 0x80 0xBF rest"
proof -
  define q where "q = c div 64"
  define z where "z = c mod 64"
  define p where "p = q div 64"
  define y where "y = q mod 64"
  define w where "w = p div 64"
  define x where "x = p mod 64"
  define lo where "lo = (if w = 0 then 0x90 else (0x80::nat))"
  define hi where "hi = (if w = 4 then 0x8F else (0xBF::nat))"
  have c: "c = q * 64 + z" by (simp add: q_def z_def)
  have q: "q = p * 64 + y" by (simp add: p_def y_def)
  have p: "p = w * 64 + x" by (simp add: w_def x_def)
  have z: "z < 64" by (simp add: z_def)
  have y: "y < 64" by (simp add: y_def)
  have x: "x < 64" by (simp add: x_def)
  have "c div 262144 = c div (64 * 64 * 64)" "c div 4096 = c div (64 * 64)" by simp_all
  then have d: "c div 262144 = w" "c div 4096 = p" by (simp_all only: w_def p_def q_def div_mult2_eq)
  have "c < 5 * 262144" using assms(2) by simp
  then have "c div 262144 < 5" by (rule less_mult_imp_div_less)
  then have w: "w < 5" using d by simp
  have lo: "lo \<le> 0x80 + x"
  proof (cases "w = 0")
    case True
    then have "16 \<le> x" using assms c q p z y by linarith
    then show ?thesis using True unfolding lo_def by simp
  next
    case False
    then show ?thesis unfolding lo_def by simp
  qed
  have hi: "0x80 + x \<le> hi"
  proof (cases "w = 4")
    case True
    then have "x \<le> 15" using assms c q p z y by linarith
    then show ?thesis using True unfolding hi_def by simp
  next
    case False
    then show ?thesis using x unfolding hi_def by simp
  qed
  have e: "utf8_encode c = [0xF0 + w, 0x80 + x, 0x80 + y, 0x80 + z]"
    using assms d by (simp add: utf8_encode_def x_def y_def z_def q_def)
  have f: "utf8_first (0xF0 + w) = Multi 3 w lo hi"
    using w by (simp add: utf8_first_def lead_mod lo_def hi_def)
  have "utf8_decode 0 0 0 0x80 0xBF ((0xF0 + w) # (0x80 + x) # (0x80 + y) # (0x80 + z) # rest)
      = utf8_decode 3 0 w lo hi ((0x80 + x) # (0x80 + y) # (0x80 + z) # rest)"
    by (rule utf8_start [OF f])
  also have "\<dots> = utf8_decode 3 (Suc 0) (w * 64 + (0x80 + x) mod 64) 0x80 0xBF
      ((0x80 + y) # (0x80 + z) # rest)"
    using lo hi by (intro utf8_continue) simp_all
  also have "\<dots> = utf8_decode 3 (Suc (Suc 0)) ((w * 64 + (0x80 + x) mod 64) * 64 + (0x80 + y) mod 64)
      0x80 0xBF ((0x80 + z) # rest)"
    using y by (intro utf8_continue) simp_all
  also have "\<dots> = (((w * 64 + (0x80 + x) mod 64) * 64 + (0x80 + y) mod 64) * 64 + (0x80 + z) mod 64)
      # utf8_decode 0 0 0 0x80 0xBF rest"
    using z by (intro utf8_finish) simp_all
  finally have F: "utf8_decode 0 0 0 0x80 0xBF
        ((0xF0 + w) # (0x80 + x) # (0x80 + y) # (0x80 + z) # rest)
      = (((w * 64 + (0x80 + x) mod 64) * 64 + (0x80 + y) mod 64) * 64 + (0x80 + z) mod 64)
        # utf8_decode 0 0 0 0x80 0xBF rest" .
  have "(0x80 + x) mod 64 = x" "(0x80 + y) mod 64 = y" "(0x80 + z) mod 64 = z"
    using x y z by (simp_all only: lead_mod)
  then have r: "((w * 64 + (0x80 + x) mod 64) * 64 + (0x80 + y) mod 64) * 64 + (0x80 + z) mod 64 = c"
    by (simp only: c q p)
  show ?thesis by (simp only: e append_Cons append_Nil F r)
qed

lemma utf8_decode_encode:
  assumes "scalar c"
  shows "utf8_decode 0 0 0 0x80 0xBF (utf8_encode c @ rest) = c # utf8_decode 0 0 0 0x80 0xBF rest"
proof -
  consider "c < 0x80" | "0x80 \<le> c" "c < 0x800" | "0x800 \<le> c" "c < 0x10000" | "0x10000 \<le> c"
    by atomize_elim linarith
  then show ?thesis
  proof cases
    case 1 then show ?thesis by (rule utf8_decode_1)
  next
    case 2 then show ?thesis by (rule utf8_decode_2)
  next
    case 3 then show ?thesis using assms by (intro utf8_decode_3) (simp_all add: scalar_def)
  next
    case 4 then show ?thesis using assms by (intro utf8_decode_4) (simp_all add: scalar_def)
  qed
qed


lemma utf8_decode_concat:
  "\<forall>c\<in>set cs. scalar c \<Longrightarrow> utf8_decode 0 0 0 0x80 0xBF (concat (map utf8_encode cs)) = cs"
  by (induction cs) (simp_all add: utf8_decode_encode)

lemma utf8_encode_bytes: "scalar c \<Longrightarrow> \<forall>b\<in>set (utf8_encode c). b < 256"
proof -
  assume s: "scalar c"
  have m: "x mod 64 < 128" for x :: nat using mod_less_divisor [of 64 x] by linarith
  consider "c < 0x80" | "0x80 \<le> c" "c < 0x800" | "0x800 \<le> c" "c < 0x10000" | "0x10000 \<le> c"
    by atomize_elim linarith
  then show ?thesis
  proof cases
    case 1
    then show ?thesis by (simp add: utf8_encode_def)
  next
    case 2
    then have "c div 64 < 32" by (simp add: less_mult_imp_div_less)
    then show ?thesis using 2 m [of c] by (simp add: utf8_encode_def)
  next
    case 3
    then have "c div 4096 < 16" by (simp add: less_mult_imp_div_less)
    then show ?thesis using 3 m [of c] m [of "c div 64"] by (simp add: utf8_encode_def)
  next
    case 4
    have "c div 262144 < 5" using s by (simp add: less_mult_imp_div_less scalar_def)
    then show ?thesis using 4 m [of c] m [of "c div 64"] m [of "c div 4096"]
      by (simp add: utf8_encode_def)
  qed
qed

lemma scalar_pair:
  assumes "lead_surrogate u" "trail_surrogate v"
  shows "scalar (0x10000 + (u - 0xD800) * 0x400 + (v - 0xDC00))"
proof -
  have "u - 0xD800 \<le> 0x3FF" "v - 0xDC00 \<le> 0x3FF"
    using assms by (auto simp add: lead_surrogate_def trail_surrogate_def)
  moreover from this(1) have "(u - 0xD800) * 0x400 \<le> 0x3FF * 0x400" by (rule mult_le_mono1)
  ultimately show ?thesis unfolding scalar_def by linarith
qed

lemma scalar_unit: "u < 0x10000 \<Longrightarrow> \<not> lead_surrogate u \<Longrightarrow> \<not> trail_surrogate u \<Longrightarrow> scalar u"
  by (auto simp add: scalar_def lead_surrogate_def trail_surrogate_def)

lemma scalar_replacement: "scalar 0xFFFD"
  by (simp add: scalar_def)

lemma utf16_decode_scalar:
  "\<forall>u\<in>set us. u < 0x10000 \<Longrightarrow> \<forall>c\<in>set (utf16_decode us). scalar c"
proof (induction us rule: utf16_decode.induct)
  case 1
  then show ?case by simp
next
  case (2 u)
  then show ?case by (simp add: scalar_replacement scalar_unit)
next
  case (3 u v us)
  have p: "\<forall>u\<in>set us. u < 0x10000" "\<forall>u\<in>set (v # us). u < 0x10000" "u < 0x10000"
    using "3.prems" by simp_all
  show ?case
  proof (cases "lead_surrogate u")
    case True
    show ?thesis
    proof (cases "trail_surrogate v")
      case v: True
      have "\<forall>c\<in>set (utf16_decode us). scalar c" by (rule "3.IH"(1) [OF True v p(1)])
      then show ?thesis using True v scalar_pair [OF True v] by simp
    next
      case v: False
      have "\<forall>c\<in>set (utf16_decode (v # us)). scalar c" by (rule "3.IH"(2) [OF True v p(2)])
      then show ?thesis using True v scalar_replacement by simp
    qed
  next
    case False
    show ?thesis
    proof (cases "trail_surrogate u")
      case t: True
      have "\<forall>c\<in>set (utf16_decode (v # us)). scalar c" by (rule "3.IH"(3) [OF False t p(2)])
      then show ?thesis using False t scalar_replacement by simp
    next
      case t: False
      have "\<forall>c\<in>set (utf16_decode (v # us)). scalar c" by (rule "3.IH"(4) [OF False t p(2)])
      moreover have "scalar u" using False t p(3) by (intro scalar_unit)
      ultimately show ?thesis using False t by simp
    qed
  qed
qed

lemma utf16_pair:
  assumes "lead_surrogate u" "trail_surrogate v"
  shows "utf16_encode (0x10000 + (u - 0xD800) * 0x400 + (v - 0xDC00)) = [u, v]"
proof -
  define a where "a = u - 0xD800"
  define b where "b = v - 0xDC00"
  have b: "b < 0x400" using assms by (auto simp add: b_def trail_surrogate_def)
  have "(a * 0x400 + b) div 0x400 = a" "(a * 0x400 + b) mod 0x400 = b" using b by simp_all
  moreover have "0xD800 + a = u" "0xDC00 + b = v"
    using assms by (auto simp add: a_def b_def lead_surrogate_def trail_surrogate_def)
  ultimately show ?thesis unfolding utf16_encode_def a_def [symmetric] b_def [symmetric]
    by simp
qed

lemma utf16_roundtrip:
  "well_formed_units us \<Longrightarrow> \<forall>u\<in>set us. u < 0x10000 \<Longrightarrow>
     concat (map utf16_encode (utf16_decode us)) = us"
proof (induction us rule: utf16_decode.induct)
  case 1
  then show ?case by simp
next
  case (2 u)
  then show ?case by (simp add: utf16_encode_def)
next
  case (3 u v us)
  show ?case
  proof (cases "lead_surrogate u")
    case True
    then have v: "trail_surrogate v" and w: "well_formed_units us" using "3.prems" by simp_all
    have "\<forall>u\<in>set us. u < 0x10000" using "3.prems"(2) by simp
    then have "concat (map utf16_encode (utf16_decode us)) = us"
      by (rule "3.IH"(1) [OF True v w])
    then show ?thesis using True v utf16_pair [OF True v] by simp
  next
    case False
    then have n: "\<not> trail_surrogate u" and w: "well_formed_units (v # us)"
      using "3.prems" by simp_all
    have "\<forall>u\<in>set (v # us). u < 0x10000" using "3.prems"(2) by simp
    then have "concat (map utf16_encode (utf16_decode (v # us))) = v # us"
      by (rule "3.IH"(4) [OF False n w])
    moreover have "utf16_encode u = [u]" using "3.prems"(2) by (simp add: utf16_encode_def)
    ultimately show ?thesis using False n by simp
  qed
qed

lemma utf16_decode_hd:
  "(case us of [] \<Rightarrow> True | u # _ \<Rightarrow> u \<noteq> 0xFEFF) \<Longrightarrow>
     (case utf16_decode us of [] \<Rightarrow> True | c # _ \<Rightarrow> c \<noteq> 0xFEFF)"
proof (cases us rule: utf16_decode.cases)
  case 1
  then show ?thesis by simp
next
  case (2 u)
  assume "case us of [] \<Rightarrow> True | u # _ \<Rightarrow> u \<noteq> 0xFEFF"
  then show ?thesis using 2 by simp
next
  case (3 u v vs)
  assume "case us of [] \<Rightarrow> True | u # _ \<Rightarrow> u \<noteq> 0xFEFF"
  then show ?thesis using 3 by simp
qed

lemma strip_bom_utf16_decode:
  "(case us of [] \<Rightarrow> True | u # _ \<Rightarrow> u \<noteq> 0xFEFF) \<Longrightarrow> strip_bom (utf16_decode us) = utf16_decode us"
  using utf16_decode_hd [of us] by (auto simp: strip_bom_def split: list.splits)

lemma unat_units: "\<forall>u\<in>set (map unat (s :: 16 word list)). u < 0x10000"
proof
  fix u assume "u \<in> set (map unat s)"
  then obtain w :: "16 word" where "u = unat w" by auto
  then show "u < 0x10000" using unsigned_less [of w] by simp
qed

lemma map_unat_of_nat_bytes:
  "\<forall>b\<in>set bs. b < 256 \<Longrightarrow> map (unat \<circ> (of_nat :: nat \<Rightarrow> byte)) bs = bs"
  by (induction bs) (simp_all add: unat_of_nat)

lemma TextDecoder_TextEncoder:
  assumes "well_formed s" "\<not> starts_with_bom s"
  shows "TextDecoder_decode (TextEncoder_encode s) = s"
proof -
  define us where "us = map unat s"
  define cs where "cs = utf16_decode us"
  define bs where "bs = concat (map utf8_encode cs)"
  have u: "\<forall>u\<in>set us. u < 0x10000" unfolding us_def by (rule unat_units)
  have sc: "\<forall>c\<in>set cs. scalar c" unfolding cs_def by (rule utf16_decode_scalar [OF u])
  have bt: "\<forall>b\<in>set bs. b < 256" unfolding bs_def using sc utf8_encode_bytes by auto
  have e: "TextEncoder_encode s = map of_nat bs" by (simp add: TextEncoder_encode_def bs_def cs_def us_def)
  have d: "utf8_decode 0 0 0 0x80 0xBF bs = cs" unfolding bs_def by (rule utf8_decode_concat [OF sc])
  have nb: "case us of [] \<Rightarrow> True | u # _ \<Rightarrow> u \<noteq> 0xFEFF"
  proof (cases s)
    case Nil
    then show ?thesis by (simp add: us_def)
  next
    case (Cons w ws)
    then have "w \<noteq> 0xFEFF" using assms(2) by (simp add: starts_with_bom_def)
    moreover have "w = of_nat (unat w)" by simp
    ultimately have "unat w \<noteq> 0xFEFF" by (metis of_nat_numeral)
    then show ?thesis using Cons by (simp add: us_def)
  qed
  have sb: "strip_bom cs = cs" unfolding cs_def by (rule strip_bom_utf16_decode [OF nb])
  have r: "concat (map utf16_encode cs) = us"
    unfolding cs_def using assms(1) u by (intro utf16_roundtrip) (simp_all add: well_formed_def us_def)
  have "map of_nat us = s" by (simp add: us_def map_idI)
  then show ?thesis
    by (simp add: TextDecoder_decode_def e map_unat_of_nat_bytes [OF bt] d sb r)
qed

section \<open>CryptoService: the claims\<close>

lemma decrypt_encrypt_text:
  assumes "cipher_correct P" and "length iv = 12"
  shows "decrypt P (encrypt P iv s k) k = Some (TextDecoder_decode (TextEncoder_encode s))"
proof -
  have "aes_gcm_decrypt P k iv (aes_gcm_encrypt P k iv (TextEncoder_encode s))
      = Some (TextEncoder_encode s)"
    using assms(1) by (simp add: cipher_correct_def)
  then show ?thesis using assms(2) by (simp add: decrypt_def encrypt_def atob_btoa)
qed

lemma toy_cipher_correct: "cipher_correct toy"
  by (simp add: cipher_correct_def toy_def toy_encrypt_def toy_decrypt_def)

lemma length_iv0: "length iv0 = 12"
  by (simp add: iv0_def)





section \<open>The models: the claims\<close>

lemma decrypt_encrypt_toy:
  "well_formed s \<Longrightarrow> \<not> starts_with_bom s \<Longrightarrow> decrypt toy (encrypt toy iv0 s k) k = Some s"
  using decrypt_encrypt_text [OF toy_cipher_correct length_iv0, of s k]
  by (simp add: TextDecoder_TextEncoder)

lemma atob_bang: "atob (js ''!'') = None"
  by (simp add: atob_def js_def strip_padding_def ascii_whitespace_def b64_index_def)

lemma decrypt_bang: "decrypt P (js ''!'') k = None"
  by (simp add: decrypt_def atob_bang)



text \<open>
  Claim C6, as the code has it. \<^verbatim>\<open>decryptRow\<close> raises no failure for a field that does not
  decrypt: \<^verbatim>\<open>Event.decryptRow\<close> always returns a record, and so does \<^verbatim>\<open>Note.decryptRow\<close>
  unless the tags decrypt to a text that \<^verbatim>\<open>JSON.parse\<close> refuses. In the record every
  sensitive field is what \<^verbatim>\<open>decrypt\<close> returned for it, \<^verbatim>\<open>null\<close> where decryption failed
  (the tags are \<^verbatim>\<open>null\<close> then, too), whatever happened to the other fields.
\<close>

theorem decryptRow_returns_null_fields:
  "(Note_decryptRow P row k = Inl SyntaxError \<and>
      (\<exists>text. decrypt P (or_null (n_tags_encrypted row)) k = Some text \<and> json_parse P text = None)
    \<or> (\<exists>n. Note_decryptRow P row k = Inr n
          \<and> note_title n = decrypt P (or_null (n_title_encrypted row)) k
          \<and> note_content n = decrypt P (or_null (n_content_encrypted row)) k
          \<and> (decrypt P (or_null (n_tags_encrypted row)) k = None \<longrightarrow> note_tags n = JNull)))
   \<and> event_title (Event_decryptRow P erow k) = decrypt P (e_title_encrypted erow) k
   \<and> event_description (Event_decryptRow P erow k)
       = decrypt P (or_null (e_description_encrypted erow)) k
   \<and> (\<not> falsy (e_rrule_encrypted erow) \<longrightarrow>
        event_rrule (Event_decryptRow P erow k) = decrypt P (or_null (e_rrule_encrypted erow)) k)"
proof -
  have "Note_decryptRow P row k = Inl SyntaxError \<and>
      (\<exists>text. decrypt P (or_null (n_tags_encrypted row)) k = Some text \<and> json_parse P text = None)
    \<or> (\<exists>n. Note_decryptRow P row k = Inr n
          \<and> note_title n = decrypt P (or_null (n_title_encrypted row)) k
          \<and> note_content n = decrypt P (or_null (n_content_encrypted row)) k
          \<and> (decrypt P (or_null (n_tags_encrypted row)) k = None \<longrightarrow> note_tags n = JNull))"
  proof (cases "decrypt P (or_null (n_tags_encrypted row)) k")
    case None
    then show ?thesis by (simp add: Note_decryptRow_def)
  next
    case (Some tx)
    then show ?thesis by (cases "json_parse P tx") (simp_all add: Note_decryptRow_def)
  qed
  then show ?thesis by (simp add: Event_decryptRow_def)
qed

lemma plain_texts:
  "well_formed (js ''B'')" "\<not> starts_with_bom (js ''B'')"
  "well_formed (js ''[]'')" "\<not> starts_with_bom (js ''[]'')"
  by (simp_all add: well_formed_def starts_with_bom_def js_def lead_surrogate_def
      trail_surrogate_def)

theorem decryptRow_returns_null_fields_witness:
  "let row = \<lparr>n_id = js ''n1'', n_title_encrypted = Some (js ''!''),
         n_content_encrypted = Some (encrypt toy iv0 (js ''B'') [1, 2]),
         n_created_at = Some 5, n_updated_at = Some 6, n_tags_encrypted = None,
         n_is_favorite = Some 1\<rparr>;
       erow = (toy_event_row (js ''e1'') 10)\<lparr>e_rrule_encrypted := Some (js ''!'')\<rparr> in
     decrypt toy (or_null (n_tags_encrypted row)) [1, 2] = None \<and> \<not> falsy (e_rrule_encrypted erow)
     \<and> (\<exists>n. Note_decryptRow toy row [1, 2] = Inr n \<and> note_title n = None
           \<and> note_content n = Some (js ''B'') \<and> note_tags n = JNull)
     \<and> event_rrule (Event_decryptRow toy erow [1, 2]) = None"
proof -
  let ?row = "\<lparr>n_id = js ''n1'', n_title_encrypted = Some (js ''!''),
         n_content_encrypted = Some (encrypt toy iv0 (js ''B'') [1, 2]),
         n_created_at = Some 5, n_updated_at = Some 6, n_tags_encrypted = None,
         n_is_favorite = Some 1\<rparr>"
  let ?erow = "(toy_event_row (js ''e1'') 10)\<lparr>e_rrule_encrypted := Some (js ''!'')\<rparr>"
  have t: "decrypt toy (or_null (n_tags_encrypted ?row)) [1, 2] = None"
    by (simp add: or_null_def decrypt_def atob_def js_def strip_padding_def ascii_whitespace_def
        b64_index_def toy_def toy_decrypt_def toy_tag_def)
  have f: "\<not> falsy (e_rrule_encrypted ?erow)" by (simp add: falsy_def js_def)
  have n: "Note_decryptRow toy ?row [1, 2] \<noteq> Inl SyntaxError"
    using t by (simp add: Note_decryptRow_def)
  from decryptRow_returns_null_fields [of toy ?row "[1, 2]" ?erow] n t f
  show ?thesis
    by (auto simp add: Let_def or_null_def decrypt_bang decrypt_encrypt_toy plain_texts)
qed

text \<open>
  The claim as the specification states it fails: a note whose title does not decrypt is
  returned as a record with the title \<^verbatim>\<open>null\<close> beside its content and its tags.
\<close>

theorem decryptRow_substitutes_null:
  "Note_decryptRow toy
     \<lparr>n_id = js ''n1'', n_title_encrypted = Some (js ''!''),
      n_content_encrypted = Some (encrypt toy iv0 (js ''B'') [1, 2]),
      n_created_at = Some 5, n_updated_at = Some 6,
      n_tags_encrypted = Some (encrypt toy iv0 (js ''[]'') [1, 2]),
      n_is_favorite = Some 1\<rparr> [1, 2]
   = Inr \<lparr>note_id = js ''n1'', note_title = None, note_content = Some (js ''B''),
      note_tags = JArr [], note_createdAt = Some 5, note_updatedAt = Some 6,
      note_isFavorite = True\<rparr>"
  by (simp add: Note_decryptRow_def or_null_def decrypt_bang decrypt_encrypt_toy plain_texts)
    (simp add: toy_def toy_json_parse_def)

section \<open>authController: the claims\<close>

lemma b64_sextets_nonempty: "ns \<noteq> [] \<Longrightarrow> b64_sextets ns \<noteq> []"
  by (cases ns rule: b64_sextets.cases) simp_all

lemma btoa_nonempty: "bs \<noteq> [] \<Longrightarrow> btoa bs \<noteq> []"
  using b64_sextets_nonempty [of "map unat bs"] by (simp add: btoa_def)



lemma setupNewPIN_result:
  assumes "isNewUser a0" and "salt_roundtrip P" and "length iv = 12"
    and "setupNewPIN P salt iv pin a0 ls0 = (a, ls)"
  shows "ls = ls0(''user_salt'' \<mapsto> bytes_to_json P salt,
        ''verification_data'' \<mapsto> encrypt P iv (js ''verified'') (deriveKeyFromPIN P pin salt))"
    and "a = \<lparr>isLocked = True, isNewUser = False, masterKey = None\<rparr>"
proof -
  show l: "ls = ls0(''user_salt'' \<mapsto> bytes_to_json P salt,
        ''verification_data'' \<mapsto> encrypt P iv (js ''verified'') (deriveKeyFromPIN P pin salt))"
    using assms(1,4) by (simp add: setupNewPIN_def Let_def)
  have "iv \<noteq> []" using assms(3) by auto
  then have "encrypt P iv (js ''verified'') (deriveKeyFromPIN P pin salt) \<noteq> []"
    by (simp add: encrypt_def btoa_nonempty)
  moreover have "bytes_to_json P salt \<noteq> []" using assms(2) by (simp add: salt_roundtrip_def)
  moreover have "a = authController_init ls" using assms(1,4) by (auto simp add: setupNewPIN_def Let_def)
  ultimately show "a = \<lparr>isLocked = True, isNewUser = False, masterKey = None\<rparr>"
    by (simp add: l authController_init_def falsy_def)
qed






lemma toy_salt_roundtrip: "salt_roundtrip toy"
proof -
  have "ucast (ucast b :: 16 word) = b" for b :: byte
    by (rule ucast_up_ucast_id) (simp add: is_up)
  then have "map (ucast :: 16 word \<Rightarrow> byte) (map ucast bs) = bs" for bs :: "byte list"
    by (induction bs) simp_all
  then show ?thesis
    by (simp add: salt_roundtrip_def toy_def toy_bytes_to_json_def toy_bytes_of_json_def)
qed

lemma new_user: "isNewUser (authController_init Map.empty)"
  by (simp add: authController_init_def falsy_def)

text \<open>
  Claim C8, as the code has it. \<^verbatim>\<open>setupNewPIN(pin)\<close> in the state of a new user takes a
  fresh salt, derives the key from the PIN and the salt, encrypts \<^verbatim>\<open>'verified'\<close> under
  it and stores the salt and the token; then it reloads the page. It neither keeps nor
  publishes the key: the reloaded controller is locked, holds no key and is no longer in
  the state of a new user, so the PIN has to be entered to unlock.
\<close>

theorem setupNewPIN_stores_credentials_and_reloads:
  assumes "isNewUser a0" and "salt_roundtrip P" and "length iv = 12"
  shows "\<exists>a ls. setupNewPIN P salt iv pin a0 ls0 = (a, ls)
     \<and> ls ''user_salt'' = Some (bytes_to_json P salt)
     \<and> ls ''verification_data''
         = Some (encrypt P iv (js ''verified'') (deriveKeyFromPIN P pin salt))
     \<and> (\<forall>key. key \<noteq> ''user_salt'' \<and> key \<noteq> ''verification_data'' \<longrightarrow> ls key = ls0 key)
     \<and> isLocked a \<and> masterKey a = None \<and> \<not> isNewUser a"
proof -
  obtain a ls where r: "setupNewPIN P salt iv pin a0 ls0 = (a, ls)" by (cases "setupNewPIN P salt iv pin a0 ls0")
  note s = setupNewPIN_result [OF assms r]
  show ?thesis unfolding r by (simp add: s)
qed

theorem setupNewPIN_stores_credentials_and_reloads_witness:
  "isNewUser (authController_init Map.empty :: byte list authController) \<and> salt_roundtrip toy
   \<and> length iv0 = 12
   \<and> (\<exists>ls. setupNewPIN toy [7] iv0 (js ''1234'') (authController_init Map.empty) Map.empty
         = (\<lparr>isLocked = True, isNewUser = False, masterKey = None\<rparr>, ls)
       \<and> ls ''user_salt'' = Some (toy_bytes_to_json [7]))"
proof -
  from setupNewPIN_stores_credentials_and_reloads [OF new_user toy_salt_roundtrip length_iv0,
    of "[7]" "js ''1234''" Map.empty]
  obtain a :: "byte list authController" and ls where
    "setupNewPIN toy [7] iv0 (js ''1234'') (authController_init Map.empty) Map.empty = (a, ls)"
    "ls ''user_salt'' = Some (bytes_to_json toy [7])"
    "isLocked a" "masterKey a = None" "\<not> isNewUser a"
    by blast
  moreover from this have "a = \<lparr>isLocked = True, isNewUser = False, masterKey = None\<rparr>"
    by (cases a) simp
  ultimately show ?thesis using new_user toy_salt_roundtrip length_iv0
    by (simp add: toy_def)
qed

text \<open>
  The claim as the specification states it fails: after the set-up the controller is
  locked and holds no key.
\<close>

theorem setupNewPIN_holds_no_key:
  "let (a, ls) = setupNewPIN toy [7] iv0 (js ''1234'') (authController_init Map.empty) Map.empty in
     isLocked a \<and> masterKey a = None"
  by (simp add: setupNewPIN_def Let_def new_user authController_init_def)





section \<open>The backup import: the claims\<close>

lemma sql_settings:
  "\<not> writes_settings q \<Longrightarrow> sql P q d = Some d' \<Longrightarrow> tbl_settings d' = tbl_settings d"
  by (cases q) (auto simp add: sql_def)

lemma execute_settings:
  assumes "\<not> writes_settings q"
  shows "tbl_settings (db (execute (sql P) q s)) = tbl_settings (db s)"
proof (cases "sql P q (db s)")
  case None
  then show ?thesis by (simp add: execute_def)
next
  case (Some d')
  then show ?thesis using sql_settings [OF assms Some]
    by (simp add: execute_def scheduleSave_def)
qed

lemma await_call_db: "await_call i io s = (r, s', io') \<Longrightarrow> db s' = db s"
proof (induction io arbitrary: s)
  case Nil
  then show ?case by (auto split: call.splits)
next
  case (Cons ok io)
  show ?case
  proof (cases "calls s ! i")
    case (AwaitWrite snap)
    then have "await_call i io (scheduleSave_resume i (saveDbToIndexedDB_done i ok s)) = (r, s', io')"
      using Cons.prems by simp
    from Cons.IH [OF this] show ?thesis by (simp add: done_frame resume_frame)
  next
    case (Settled b)
    then have "await_call i io (scheduleSave_resume i (saveDbToIndexedDB_done i ok s)) = (r, s', io')"
      using Cons.prems by simp
    from Cons.IH [OF this] show ?thesis by (simp add: done_frame resume_frame)
  next
    case Resolved
    then show ?thesis using Cons.prems by simp
  next
    case (Rejected e)
    then show ?thesis using Cons.prems by simp
  qed
qed

lemma execute_await_settings:
  assumes "\<not> writes_settings q" and "execute_await (sql P) q io s = (r, s', io')"
  shows "tbl_settings (db s') = tbl_settings (db s)"
  using await_call_db [of "length (calls s)" io "execute (sql P) q s" r s' io'] assms(2)
    execute_settings [OF assms(1), of P s]
  by (simp add: execute_await_def)

lemma insert_all_settings:
  assumes "\<And>vals. \<not> writes_settings (mk vals)"
  shows "insert_all P mk rows io s = (r, s', io') \<Longrightarrow> tbl_settings (db s') = tbl_settings (db s)"
proof (induction rows arbitrary: io s)
  case Nil
  then show ?case by simp
next
  case (Cons row rows)
  show ?case
  proof (cases "object_values P row")
    case None
    then show ?thesis using Cons.prems by simp
  next
    case (Some vals)
    obtain r1 s1 io1 where e: "execute_await (sql P) (mk vals) io s = (r1, s1, io1)"
      by (cases "execute_await (sql P) (mk vals) io s")
    have s1: "tbl_settings (db s1) = tbl_settings (db s)"
      by (rule execute_await_settings [OF assms e])
    show ?thesis
    proof (cases r1)
      case (Returned u)
      then have "insert_all P mk rows io1 s1 = (r, s', io')" using Cons.prems Some e by simp
      from Cons.IH [OF this] s1 show ?thesis by simp
    next
      case (Threw x)
      then show ?thesis using Cons.prems Some e s1 by auto
    next
      case Pending
      then show ?thesis using Cons.prems Some e s1 by auto
    qed
  qed
qed

lemma delete_settings:
  "execute_await (sql P) DeleteFromNotes io s = (r, s', io') \<Longrightarrow> tbl_settings (db s') = tbl_settings (db s)"
  "execute_await (sql P) DeleteFromEvents io s = (r, s', io') \<Longrightarrow> tbl_settings (db s') = tbl_settings (db s)"
  by (rule execute_await_settings; simp)+

lemma insert_settings:
  "insert_all P InsertIntoNotes rows io s = (r, s', io') \<Longrightarrow> tbl_settings (db s') = tbl_settings (db s)"
  "insert_all P InsertIntoEvents rows io s = (r, s', io') \<Longrightarrow> tbl_settings (db s') = tbl_settings (db s)"
  by (rule insert_all_settings; simp)+

lemma replace_all_frame:
  "replace_all P backupData io s ls = (r, s', ls') \<Longrightarrow>
     tbl_settings (db s') = tbl_settings (db s)
     \<and> (\<forall>key. key \<noteq> ''user_salt'' \<and> key \<noteq> ''verification_data'' \<longrightarrow> ls' key = ls key)"
  unfolding replace_all_def finish_import_def
  by (auto split: prod.splits outcome.splits sum.splits dest!: delete_settings insert_settings)

text \<open>
  Claim C10. Whatever its outcome, and so in particular when it succeeds, \<^verbatim>\<open>importData\<close>
  leaves the rows of the \<^verbatim>\<open>settings\<close> table as they were, and of \<^verbatim>\<open>localStorage\<close> it
  changes at most the two credentials \<^verbatim>\<open>user_salt\<close> and \<^verbatim>\<open>verification_data\<close>.
\<close>

theorem importData_leaves_settings:
  assumes "importData P file pin confirmed io s ls = (r, s', ls')"
  shows "tbl_settings (db s') = tbl_settings (db s)
     \<and> (\<forall>key. key \<noteq> ''user_salt'' \<and> key \<noteq> ''verification_data'' \<longrightarrow> ls' key = ls key)"
  using assms unfolding importData_def Let_def
  by (auto split: option.splits if_splits dest!: replace_all_frame)

lemma backup_plain: "well_formed (js ''backup'')" "\<not> starts_with_bom (js ''backup'')"
  by (simp_all add: well_formed_def starts_with_bom_def js_def lead_surrogate_def
      trail_surrogate_def)

lemma toy_file_decrypts:
  "decrypt toy toy_file (deriveKeyFromPIN toy (js ''1234'') [7]) = Some (js ''backup'')"
  unfolding toy_file_def by (rule decrypt_encrypt_toy [OF backup_plain])

lemma toy_salt: "bytes_of_json toy (toy_localStorage ''user_salt'') = Some [7]"
  using toy_salt_roundtrip by (simp add: salt_roundtrip_def toy_localStorage_def toy_def)

lemma toy_parse_backup: "json_parse toy (js ''backup'') = Some toy_backup"
  by (simp add: toy_def toy_json_parse_def js_def)

lemma toy_backup_members:
  "and_then (and_then (js_get toy_backup ''data'') (\<lambda>d. js_get d ''notes'')) js_iterate
     = Inr [JObj [(js ''id'', JStr (js ''n2''))]]"
  "and_then (and_then (js_get toy_backup ''data'') (\<lambda>d. js_get d ''events'')) js_iterate = Inr []"
  "and_then (js_get toy_backup ''salt'') (\<lambda>salt.
     and_then (js_get toy_backup ''verificationData'') (\<lambda>vd. Inr (salt, vd)))
     = Inr (JStr (js ''[9]''), JStr (js ''token''))"
  by (simp_all add: toy_backup_def js_get_def js_iterate_def and_then_def js_def)

lemma toy_delete_notes:
  "execute_await (sql toy) DeleteFromNotes [True, True, True] (fresh toy_database None)
   = (Returned (),
      \<lparr>db = toy_database\<lparr>tbl_notes := []\<rparr>, isInitialized = True, isSaving = False,
       saveQueue = False, idb = Some (1, toy_database\<lparr>tbl_notes := []\<rparr>), nrun = 1,
       calls = [Resolved]\<rparr>, [True, True])"
  by (simp add: execute_await_def execute_def scheduleSave_def fresh_def sql_def
      saveDbToIndexedDB_done_def scheduleSave_resume_def)


lemma toy_replace_all:
  "replace_all toy toy_backup [True, True, True] (fresh toy_database None) toy_localStorage
   = (Imported,
      \<lparr>db = \<lparr>tbl_notes = [toy_note_row (js ''n2'')], tbl_events = [],
              tbl_settings = [(js ''theme'', js ''dark'')]\<rparr>,
       isInitialized = True, isSaving = False, saveQueue = False,
       idb = Some (3, \<lparr>tbl_notes = [toy_note_row (js ''n2'')], tbl_events = [],
              tbl_settings = [(js ''theme'', js ''dark'')]\<rparr>),
       nrun = 3, calls = [Resolved, Resolved, Resolved]\<rparr>,
      toy_localStorage(''user_salt'' \<mapsto> js ''[9]'', ''verification_data'' \<mapsto> js ''token''))"
  unfolding replace_all_def toy_delete_notes
  by (simp add: finish_import_def toy_backup_members execute_await_def execute_def
      scheduleSave_def sql_def saveDbToIndexedDB_done_def scheduleSave_resume_def toy_database_def
      toy_def toy_object_values_def toy_insert_note_def toy_to_string_def)

lemma toy_import:
  "importData toy (Some toy_file) (js ''1234'') True [True, True, True] (fresh toy_database None)
     toy_localStorage
   = (Imported,
      \<lparr>db = \<lparr>tbl_notes = [toy_note_row (js ''n2'')], tbl_events = [],
              tbl_settings = [(js ''theme'', js ''dark'')]\<rparr>,
       isInitialized = True, isSaving = False, saveQueue = False,
       idb = Some (3, \<lparr>tbl_notes = [toy_note_row (js ''n2'')], tbl_events = [],
              tbl_settings = [(js ''theme'', js ''dark'')]\<rparr>),
       nrun = 3, calls = [Resolved, Resolved, Resolved]\<rparr>,
      toy_localStorage(''user_salt'' \<mapsto> js ''[9]'', ''verification_data'' \<mapsto> js ''token''))"
proof -
  have p: "js ''1234'' \<noteq> []" "length (js ''1234'') = 4" by (simp_all add: js_def)
  have b: "\<not> falsy (Some (js ''backup''))" by (simp add: falsy_def js_def)
  show ?thesis
    by (simp add: importData_def p toy_salt toy_file_decrypts b or_null_def toy_parse_backup
        toy_replace_all)
qed

text \<open>A successful import on the example device.\<close>

theorem importData_leaves_settings_witness:
  "let r = importData toy (Some toy_file) (js ''1234'') True [True, True, True]
         (fresh toy_database None) toy_localStorage in
     fst r = Imported
     \<and> tbl_notes (db (fst (snd r))) = [toy_note_row (js ''n2'')]
     \<and> tbl_events (db (fst (snd r))) = []
     \<and> tbl_settings (db (fst (snd r))) = tbl_settings toy_database
     \<and> snd (snd r) ''user_salt'' = Some (js ''[9]'')
     \<and> snd (snd r) ''verification_data'' = Some (js ''token'')
     \<and> snd (snd r) ''theme'' = toy_localStorage ''theme''"
  using importData_leaves_settings [OF toy_import]
  unfolding Let_def toy_import by (simp add: fresh_sel toy_database_def)


text \<open>
  Claim C7. When the stored salt does not parse, the file does not decrypt (to a non-empty
  text) or the decrypted text is not JSON, \<^verbatim>\<open>importData\<close> changes nothing: the service,
  with its database and its record of the calls of \<^verbatim>\<open>execute\<close>, and \<^verbatim>\<open>localStorage\<close> are
  as before, and past the two guards the import ends in its \<^verbatim>\<open>catch\<close>. Put the other way
  round: if anything has changed (the first change is \<^verbatim>\<open>DELETE FROM notes\<close>), then
  decryption and parsing had both succeeded.
\<close>

theorem importData_all_or_nothing:
  "(bytes_of_json P (ls ''user_salt'') = None
      \<or> (\<exists>salt. bytes_of_json P (ls ''user_salt'') = Some salt
            \<and> (falsy (decrypt P blob (deriveKeyFromPIN P pin salt))
                 \<or> json_parse P (or_null (decrypt P blob (deriveKeyFromPIN P pin salt))) = None))
     \<longrightarrow> snd (importData P (Some blob) pin confirmed io s ls) = (s, ls)
         \<and> (length pin = 4 \<and> confirmed \<longrightarrow>
               (\<exists>e. fst (importData P (Some blob) pin confirmed io s ls) = ImportFailed e)))
   \<and> (snd (importData P (Some blob) pin confirmed io s ls) \<noteq> (s, ls) \<longrightarrow>
        (\<exists>salt backupJson backupData.
           bytes_of_json P (ls ''user_salt'') = Some salt
           \<and> decrypt P blob (deriveKeyFromPIN P pin salt) = Some backupJson
           \<and> backupJson \<noteq> [] \<and> json_parse P backupJson = Some backupData))"
proof (intro conjI impI)
  assume a: "bytes_of_json P (ls ''user_salt'') = None
      \<or> (\<exists>salt. bytes_of_json P (ls ''user_salt'') = Some salt
            \<and> (falsy (decrypt P blob (deriveKeyFromPIN P pin salt))
                 \<or> json_parse P (or_null (decrypt P blob (deriveKeyFromPIN P pin salt))) = None))"
  then show "snd (importData P (Some blob) pin confirmed io s ls) = (s, ls)"
    by (auto simp add: importData_def Let_def)
  assume "length pin = 4 \<and> confirmed"
  then show "\<exists>e. fst (importData P (Some blob) pin confirmed io s ls) = ImportFailed e"
    using a by (auto simp add: importData_def Let_def)
next
  assume n: "snd (importData P (Some blob) pin confirmed io s ls) \<noteq> (s, ls)"
  then obtain salt where s: "bytes_of_json P (ls ''user_salt'') = Some salt"
    by (cases "bytes_of_json P (ls ''user_salt'')") (auto simp add: importData_def split: if_splits)
  let ?j = "decrypt P blob (deriveKeyFromPIN P pin salt)"
  have f: "\<not> falsy ?j" using n s by (auto simp add: importData_def Let_def split: if_splits)
  then obtain backupJson where j: "?j = Some backupJson" "backupJson \<noteq> []"
    by (cases ?j) (auto simp add: falsy_def)
  obtain backupData where "json_parse P backupJson = Some backupData"
    using n s f j
    by (cases "json_parse P backupJson")
      (auto simp add: importData_def Let_def or_null_def split: if_splits)
  then show "\<exists>salt backupJson backupData.
           bytes_of_json P (ls ''user_salt'') = Some salt
           \<and> decrypt P blob (deriveKeyFromPIN P pin salt) = Some backupJson
           \<and> backupJson \<noteq> [] \<and> json_parse P backupJson = Some backupData"
    using s j by blast
qed

theorem importData_all_or_nothing_witness:
  "bytes_of_json toy (toy_localStorage ''user_salt'') = Some [7]
   \<and> falsy (decrypt toy (js ''!'') (deriveKeyFromPIN toy (js ''1234'') [7]))
   \<and> importData toy (Some (js ''!'')) (js ''1234'') True [True] (fresh toy_database None)
        toy_localStorage
      = (ImportFailed DecryptFailed, fresh toy_database None, toy_localStorage)
   \<and> snd (importData toy (Some toy_file) (js ''1234'') True [True, True, True]
        (fresh toy_database None) toy_localStorage) \<noteq> (fresh toy_database None, toy_localStorage)
   \<and> decrypt toy toy_file (deriveKeyFromPIN toy (js ''1234'') [7]) = Some (js ''backup'')
   \<and> json_parse toy (js ''backup'') = Some toy_backup"
proof -
  have f: "falsy (decrypt toy (js ''!'') (deriveKeyFromPIN toy (js ''1234'') [7]))"
    by (simp add: decrypt_bang falsy_def)
  have p: "length (js ''1234'') = 4" by (simp add: js_def)
  from importData_all_or_nothing [of toy toy_localStorage "js ''!''" "js ''1234''" True "[True]"
      "fresh toy_database None"] toy_salt f p
  have "snd (importData toy (Some (js ''!'')) (js ''1234'') True [True] (fresh toy_database None)
        toy_localStorage) = (fresh toy_database None, toy_localStorage)"
    by blast
  moreover have "fst (importData toy (Some (js ''!'')) (js ''1234'') True [True]
      (fresh toy_database None) toy_localStorage) = ImportFailed DecryptFailed"
    using toy_salt f p by (simp add: importData_def Let_def js_def)
  ultimately have 1: "importData toy (Some (js ''!'')) (js ''1234'') True [True]
      (fresh toy_database None) toy_localStorage
      = (ImportFailed DecryptFailed, fresh toy_database None, toy_localStorage)"
    by (simp add: prod_eq_iff)
  have 2: "snd (importData toy (Some toy_file) (js ''1234'') True [True, True, True]
        (fresh toy_database None) toy_localStorage) \<noteq> (fresh toy_database None, toy_localStorage)"
    unfolding toy_import by (simp add: fresh_def)
  show ?thesis using toy_salt f 1 2 toy_file_decrypts toy_parse_backup by simp
qed


end
